theory Spec2Isabelle
  imports Complex_Main
begin

section \<open>Signals\<close>

text \<open>
  \<^verbatim>\<open>layout.py\<close> declares two exception classes, \<^verbatim>\<open>EndOfContainer\<close> and its
  subclass \<^verbatim>\<open>EndOfPage\<close>. An \<^verbatim>\<open>except EndOfContainer\<close> clause therefore catches both,
  an \<^verbatim>\<open>except EndOfPage\<close> clause only the second. \<^verbatim>\<open>EndOfPage\<close> is raised with the
  chain as its argument; objects are referred to by a number.

  A call of the source either returns a value or raises; since the objects it worked on
  keep the changes made before the raise, every operation gives back the new state
  together with a \<open>result\<close>.
\<close>

type_synonym ref = nat

datatype signal = EndOfContainer | EndOfPage ref

datatype 'a result = Return 'a | Raise signal

section \<open>Lengths\<close>

text \<open>
  The lengths of the source are Python floats (\<^verbatim>\<open>flow\<close> passes \<^verbatim>\<open>float(...)\<close> to
  \<^verbatim>\<open>advance\<close>, and the offset is the float sum of what was passed) and \<^verbatim>\<open>Dimension\<close>
  objects (\<^verbatim>\<open>0*PT\<close>, the height of a container). The class \<^verbatim>\<open>Dimension\<close> (\<^verbatim>\<open>dimension.py\<close>) is
  not among the sources. In the model a length is a value of a type \<open>'l\<close> that has an
  addition, a subtraction, a zero and a comparison, of which no law is assumed: every
  theorem about the model holds of floating-point arithmetic as it holds of exact
  arithmetic, and a sum is always taken in the order in which the code takes it. The truth
  value that Python gives to a length in a condition such as
  \<^verbatim>\<open>if self.max_height and ...\<close> is a parameter \<open>truthy\<close> of the functions that test one (a
  number is false when it is zero, an object of a class without \<^verbatim>\<open>__bool__\<close> is true).

  Concrete evaluations use real numbers where every value and sum is a float exactly, and
  \<open>pyfloat\<close> where the rounding matters. \<open>pyfloat\<close> is Python's \<^verbatim>\<open>float\<close>, an IEEE 754 double:
  a finite value, an infinity or a NaN. A sum or difference is the exact one rounded to the
  nearest double, ties to the even significand (53 bits; the unit in the last place is
  \<open>2 powi (e - 52)\<close> where \<open>2 powi e\<close> is the power of two at or below the magnitude, with \<open>e\<close>
  at least \<open>- 1022\<close>), and an infinity from \<open>2 powi 1024\<close> on; an operation never
  raises. A comparison with a NaN is false. The sign of a zero is not kept. A finite
  value is given as the real number it stands for; the operations return doubles.
\<close>

datatype pyfloat = Finite real | PosInf | NegInf | NaN

definition nearest_even :: "real \<Rightarrow> int" where
  "nearest_even q =
     (if q - of_int \<lfloor>q\<rfloor> < 1 / 2 then \<lfloor>q\<rfloor>
      else if 1 / 2 < q - of_int \<lfloor>q\<rfloor> then \<lfloor>q\<rfloor> + 1
      else if even \<lfloor>q\<rfloor> then \<lfloor>q\<rfloor> else \<lfloor>q\<rfloor> + 1)"

definition round_double :: "real \<Rightarrow> pyfloat" where
  "round_double x =
     (if x = 0 then Finite 0
      else let e = max \<lfloor>log 2 \<bar>x\<bar>\<rfloor> (- 1022);
               ulp = 2 powi (e - 52);
               y = of_int (nearest_even (\<bar>x\<bar> / ulp)) * ulp
           in if 2 powi 1024 \<le> y then (if x < 0 then NegInf else PosInf)
              else Finite (sgn x * y))"

fun float_add :: "pyfloat \<Rightarrow> pyfloat \<Rightarrow> pyfloat" where
  "float_add (Finite x) (Finite y) = round_double (x + y)"
| "float_add NaN _ = NaN"
| "float_add _ NaN = NaN"
| "float_add PosInf NegInf = NaN"
| "float_add NegInf PosInf = NaN"
| "float_add PosInf _ = PosInf"
| "float_add _ PosInf = PosInf"
| "float_add NegInf _ = NegInf"
| "float_add _ NegInf = NegInf"

fun float_neg :: "pyfloat \<Rightarrow> pyfloat" where
  "float_neg (Finite x) = Finite (- x)"
| "float_neg PosInf = NegInf"
| "float_neg NegInf = PosInf"
| "float_neg NaN = NaN"

fun float_less :: "pyfloat \<Rightarrow> pyfloat \<Rightarrow> bool" where
  "float_less (Finite x) (Finite y) = (x < y)"
| "float_less NaN _ = False"
| "float_less _ NaN = False"
| "float_less _ NegInf = False"
| "float_less PosInf _ = False"
| "float_less NegInf _ = True"
| "float_less _ PosInf = True"

instantiation pyfloat :: "{zero, plus, minus, ord}"
begin

definition zero_pyfloat :: pyfloat where
  "zero_pyfloat = Finite 0"

definition plus_pyfloat :: "pyfloat \<Rightarrow> pyfloat \<Rightarrow> pyfloat" where
  "plus_pyfloat a b = float_add a b"

definition minus_pyfloat :: "pyfloat \<Rightarrow> pyfloat \<Rightarrow> pyfloat" where
  "minus_pyfloat a b = float_add a (float_neg b)"

definition less_pyfloat :: "pyfloat \<Rightarrow> pyfloat \<Rightarrow> bool" where
  "less_pyfloat a b = float_less a b"

definition less_eq_pyfloat :: "pyfloat \<Rightarrow> pyfloat \<Rightarrow> bool" where
  "less_eq_pyfloat a b \<longleftrightarrow> float_less a b \<or> (a = b \<and> a \<noteq> NaN)"

instance ..

end

section \<open>Containers\<close>

text \<open>
  One record holds the fields of \<^verbatim>\<open>ContainerBase\<close> and of its subclasses \<^verbatim>\<open>Container\<close>
  and \<^verbatim>\<open>ExpandingContainer\<close>; \<open>cls\<close> is the class of the object, on which
  \<^verbatim>\<open>advance\<close> is dispatched. \<open>canvas_height\<close> is the height of the backend canvas of the
  container (\<^verbatim>\<open>self.canvas.height\<close>); the backend is not among the sources.
\<close>

datatype container_class = Container | ExpandingContainer

record 'l container =
  cls :: container_class
  left :: 'l
  width :: 'l
  right :: 'l
  top :: 'l
  height :: 'l
  bottom :: 'l
  max_height :: "'l option"
  flowable_offset :: 'l
  canvas_height :: 'l

text \<open>
  \<^verbatim>\<open>
  class Container:
      def advance(self, height):
          self._flowable_offset += height
          if self._flowable_offset > self.height:
              raise EndOfContainer

  class ExpandingContainer:
      def advance(self, height):
          self._flowable_offset += height
          if self.max_height and self._flowable_offset > self.max_height:
              raise EndOfContainer
          self.expand(height)

      def expand(self, height):
          self.height += height
  \<close>
\<close>

definition expand :: "'l::plus \<Rightarrow> 'l container \<Rightarrow> 'l container" where
  "expand h self = self\<lparr>height := height self + h\<rparr>"

definition Container_advance ::
    "'l::{plus,minus,ord} \<Rightarrow> 'l container \<Rightarrow> 'l container \<times> unit result" where
  "Container_advance h self =
     (let self = self\<lparr>flowable_offset := flowable_offset self + h\<rparr>
      in if flowable_offset self > height self then (self, Raise EndOfContainer)
         else (self, Return ()))"

definition ExpandingContainer_advance ::
    "('l::{plus,minus,ord} \<Rightarrow> bool) \<Rightarrow> 'l \<Rightarrow> 'l container \<Rightarrow> 'l container \<times> unit result" where
  "ExpandingContainer_advance truthy h self =
     (let self = self\<lparr>flowable_offset := flowable_offset self + h\<rparr>
      in if (case max_height self of None \<Rightarrow> False
             | Some m \<Rightarrow> truthy m \<and> flowable_offset self > m)
         then (self, Raise EndOfContainer)
         else (expand h self, Return ()))"

definition advance ::
    "('l::{plus,minus,ord} \<Rightarrow> bool) \<Rightarrow> 'l \<Rightarrow> 'l container \<Rightarrow> 'l container \<times> unit result" where
  "advance truthy h self =
     (case cls self of
        Container \<Rightarrow> Container_advance h self
      | ExpandingContainer \<Rightarrow> ExpandingContainer_advance truthy h self)"

text \<open>
  A caller that makes the calls \<^verbatim>\<open>advance(h1)\<close>, \<^verbatim>\<open>advance(h2)\<close>, ... one after the other:
  the first call that raises ends the sequence.
\<close>

fun advances ::
    "('l::{plus,minus,ord} \<Rightarrow> bool) \<Rightarrow> 'l list \<Rightarrow> 'l container \<Rightarrow> 'l container \<times> unit result" where
  "advances truthy [] self = (self, Return ())"
| "advances truthy (h # hs) self =
     (case advance truthy h self of
        (self', Return _) \<Rightarrow> advances truthy hs self'
      | (self', Raise e) \<Rightarrow> (self', Raise e))"

text \<open>\<^verbatim>\<open>cursor\<close>: \<^verbatim>\<open>return float(self.canvas.height) - self._flowable_offset\<close>\<close>

definition cursor :: "'l::minus container \<Rightarrow> 'l" where
  "cursor self = canvas_height self - flowable_offset self"

subsection \<open>Construction\<close>

text \<open>
  \<^verbatim>\<open>
  class ContainerBase:
      def __init__(self, parent, left=None, width=None, right=None, chain=None):
          ...
          if left is None:
              left = 0*PT if (right and width) is None else (right - width)
          if width is None:
              width = (parent.width - left) if right is None else (right - left)
          self.left = left
          self.width = width
          self.right = left + width
          ...
          self._flowable_offset = 0

  class Container(ContainerBase):
      def __init__(self, parent, left=None, top=None, width=None, height=None,
                   right=None, bottom=None, chain=None):
          super().__init__(parent, left, width, right, chain)
          if top is None:
              top = 0*PT if (bottom and height) is None else (bottom - height)
          if height is None:
              height = (parent.height - top) if bottom is None else (bottom - top)
          self.top = top
          self.height = height
          self.bottom = top + height
  \<close>
  An argument left at its default is \<open>None\<close>. Python's \<^verbatim>\<open>a and b\<close> is \<open>a\<close> when \<open>a\<close>
  is false in a condition, else \<open>b\<close>. A subtraction with \<^verbatim>\<open>None\<close> raises
  \<^verbatim>\<open>TypeError\<close>, and \<^verbatim>\<open>parent.width\<close> with no parent (a page) raises \<^verbatim>\<open>AttributeError\<close>.
  The constructors also register the new object with its parent and its chain; the links
  between objects are kept apart from the record (see \<open>geometry\<close> and \<open>chain\<close> below). The
  height of the backend canvas is an argument \<open>canvas\<close>.
\<close>

datatype error = AttributeError | TypeError

definition py_and :: "('l \<Rightarrow> bool) \<Rightarrow> 'l option \<Rightarrow> 'l option \<Rightarrow> 'l option" where
  "py_and truthy a b = (case a of None \<Rightarrow> None | Some x \<Rightarrow> if truthy x then b else Some x)"

definition py_sub :: "'l::minus option \<Rightarrow> 'l option \<Rightarrow> error + 'l" where
  "py_sub a b = (case (a, b) of (Some x, Some y) \<Rightarrow> Inr (x - y) | _ \<Rightarrow> Inl TypeError)"

definition ContainerBase_init ::
    "('l::{zero,plus,minus} \<Rightarrow> bool) \<Rightarrow> 'l container option \<Rightarrow> 'l option \<Rightarrow> 'l option \<Rightarrow> 'l option
       \<Rightarrow> error + 'l \<times> 'l \<times> 'l" where
  "ContainerBase_init truthy parent l w r =
     (case (case l of
              None \<Rightarrow> if py_and truthy r w = None then Inr 0 else py_sub r w
            | Some x \<Rightarrow> Inr x) of
        Inl e \<Rightarrow> Inl e
      | Inr l' \<Rightarrow>
          (case (case w of
                   None \<Rightarrow>
                     (case r of
                        None \<Rightarrow> (case parent of None \<Rightarrow> Inl AttributeError
                                 | Some p \<Rightarrow> Inr (width p - l'))
                      | Some x \<Rightarrow> Inr (x - l'))
                 | Some x \<Rightarrow> Inr x) of
             Inl e \<Rightarrow> Inl e
           | Inr w' \<Rightarrow> Inr (l', w', l' + w')))"

definition Container_init ::
    "('l::{zero,plus,minus} \<Rightarrow> bool) \<Rightarrow> 'l \<Rightarrow> 'l container option \<Rightarrow> 'l option \<Rightarrow> 'l option \<Rightarrow> 'l option
       \<Rightarrow> 'l option \<Rightarrow> 'l option \<Rightarrow> 'l option \<Rightarrow> error + 'l container" where
  "Container_init truthy canvas parent l t w h r b =
     (case ContainerBase_init truthy parent l w r of
        Inl e \<Rightarrow> Inl e
      | Inr (l', w', r') \<Rightarrow>
          (case (case t of
                   None \<Rightarrow> if py_and truthy b h = None then Inr 0 else py_sub b h
                 | Some x \<Rightarrow> Inr x) of
             Inl e \<Rightarrow> Inl e
           | Inr t' \<Rightarrow>
               (case (case h of
                        None \<Rightarrow>
                          (case b of
                             None \<Rightarrow> (case parent of None \<Rightarrow> Inl AttributeError
                                      | Some p \<Rightarrow> Inr (height p - t'))
                           | Some x \<Rightarrow> Inr (x - t'))
                      | Some x \<Rightarrow> Inr x) of
                  Inl e \<Rightarrow> Inl e
                | Inr h' \<Rightarrow>
                    Inr \<lparr>cls = Container, left = l', width = w', right = r',
                         top = t', height = h', bottom = t' + h', max_height = None,
                         flowable_offset = 0, canvas_height = canvas\<rparr>)))"

text \<open>
  What the two constructors resolve an axis to, as their docstrings describe it: a start
  that is not given is 0, unless end and extent are both given; an extent that is not
  given reaches to the given end, or else fills what the parent has left.
\<close>

definition resolved_start :: "'l::{zero,minus} option \<Rightarrow> 'l option \<Rightarrow> 'l option \<Rightarrow> 'l" where
  "resolved_start s x e =
     (case s of Some s' \<Rightarrow> s'
      | None \<Rightarrow> (case (e, x) of (Some e', Some x') \<Rightarrow> e' - x' | _ \<Rightarrow> 0))"

definition resolved_extent ::
    "'l::{zero,minus} \<Rightarrow> 'l option \<Rightarrow> 'l option \<Rightarrow> 'l option \<Rightarrow> 'l" where
  "resolved_extent available s x e =
     (case x of Some x' \<Rightarrow> x'
      | None \<Rightarrow> (case e of Some e' \<Rightarrow> e' - resolved_start s x e
                 | None \<Rightarrow> available - resolved_start s x e))"

text \<open>Containers used to evaluate the theorems at concrete inputs.\<close>

abbreviation box :: "container_class \<Rightarrow> real \<Rightarrow> real option \<Rightarrow> real container" where
  "box k H M \<equiv> \<lparr>cls = k, left = 0, width = 100, right = 100, top = 0, height = H, bottom = H,
     max_height = M, flowable_offset = 0, canvas_height = 0\<rparr>"

abbreviation float_box ::
    "container_class \<Rightarrow> pyfloat \<Rightarrow> pyfloat option \<Rightarrow> pyfloat container" where
  "float_box k H M \<equiv> \<lparr>cls = k, left = 0, width = Finite 100, right = Finite 100, top = 0,
     height = H, bottom = H, max_height = M, flowable_offset = 0, canvas_height = 0\<rparr>"

section \<open>Flowables\<close>

text \<open>
  \<^verbatim>\<open>
  class Flowable(Styled):
      def __init__(self, style=None, parent=None):
          super().__init__(style, parent)
          self.resume = False

      def flow(self, container):
          start_offset = container.cursor
          if not self.resume:
              self.resume = True
              container.advance(float(self.get_style('space_above')))
          self.render(container)
          self.resume = False
          try:
              container.advance(float(self.get_style('space_below')))
          except EndOfContainer:
              pass
          return container.cursor - start_offset

      def render(self, container):
          raise NotImplementedError
  \<close>
  The two style attributes are fields of the flowable. \<^verbatim>\<open>render\<close> is left to the subclasses
  of \<^verbatim>\<open>Flowable\<close>, none of which is among the sources: it is a parameter \<open>render\<close>, which
  may change the flowable (the fields a subclass adds are the extension of the record) and
  the container it is given, and may raise.
\<close>

record 'l flowable =
  space_above :: 'l
  space_below :: 'l
  resume :: bool

type_synonym ('l, 'a) render =
  "('l, 'a) flowable_scheme \<Rightarrow> 'l container
     \<Rightarrow> (('l, 'a) flowable_scheme \<times> 'l container) \<times> unit result"

definition Flowable_flow ::
    "('l::{plus,minus,ord} \<Rightarrow> bool) \<Rightarrow> ('l, 'a) render \<Rightarrow> ('l, 'a) flowable_scheme \<Rightarrow> 'l container
       \<Rightarrow> (('l, 'a) flowable_scheme \<times> 'l container) \<times> 'l result" where
  "Flowable_flow truthy render self container =
     (let start_offset = cursor container
      in case (if \<not> resume self
               then (let self = self\<lparr>resume := True\<rparr>
                     in case advance truthy (space_above self) container of
                          (container, r) \<Rightarrow> ((self, container), r))
               else ((self, container), Return ())) of
           ((self, container), Raise e) \<Rightarrow> ((self, container), Raise e)
         | ((self, container), Return _) \<Rightarrow>
             (case render self container of
                ((self, container), Raise e) \<Rightarrow> ((self, container), Raise e)
              | ((self, container), Return _) \<Rightarrow>
                  (let self = self\<lparr>resume := False\<rparr>;
                       container = fst (advance truthy (space_below self) container)
                   in ((self, container), Return (cursor container - start_offset)))))"

text \<open>
  \<^verbatim>\<open>
  class ContainerBase:
      def flow(self, flowable):
          flowable_height = flowable.flow(self)
          return flowable_height
  \<close>
\<close>

definition ContainerBase_flow ::
    "('l::{plus,minus,ord} \<Rightarrow> bool) \<Rightarrow> ('l, 'a) render \<Rightarrow> 'l container \<Rightarrow> ('l, 'a) flowable_scheme
       \<Rightarrow> (('l, 'a) flowable_scheme \<times> 'l container) \<times> 'l result" where
  "ContainerBase_flow truthy render self flowable =
     (let flowable_height = Flowable_flow truthy render flowable self in flowable_height)"

text \<open>
  A flowable to evaluate the theorems at concrete inputs: its content is one block of a
  given height, and rendering it advances the container by that height.
\<close>

record 'l block = "'l flowable" +
  content_height :: 'l

definition render_block ::
    "('l::{plus,minus,ord} \<Rightarrow> bool) \<Rightarrow> 'l block \<Rightarrow> 'l container
       \<Rightarrow> ('l block \<times> 'l container) \<times> unit result" where
  "render_block truthy self container =
     (case advance truthy (content_height self) container of
        (container, r) \<Rightarrow> ((self, container), r))"

section \<open>Chains\<close>

text \<open>
  \<^verbatim>\<open>
  class Chain(RenderTarget):
      def __init__(self, document):
          super().__init__()              # self.flowables = []
          self._document = document
          self._containers = []
          self._container_index = 0
          self._flowable_index = 0

      def render(self):
          while self._container_index < len(self._containers):
              container = self._containers[self._container_index]
              self._container_index += 1
              try:
                  while self._flowable_index < len(self.flowables):
                      flowable = self.flowables[self._flowable_index]
                      container.flow(flowable)
                      self._flowable_index += 1
              except EndOfContainer:
                  if self._container_index > len(self._containers) - 1:
                      raise EndOfPage(self)
  \<close>
  The chain holds its flowables and its containers; a flow changes both, and the changed
  objects are written back at their positions. \<open>flow_loop\<close> is the inner loop, flowing into
  the container at position \<open>k\<close>; \<open>fill_container\<close> is one turn of the outer loop up to the
  handler: it takes the current container, steps \<^verbatim>\<open>_container_index\<close> and runs the inner
  loop. \<open>Chain_render\<close> is the outer loop with the handler; \<open>me\<close> is the reference to this
  chain that \<^verbatim>\<open>EndOfPage(self)\<close> carries.
\<close>

record ('l, 'a) chain =
  flowables :: "('l, 'a) flowable_scheme list"
  containers :: "'l container list"
  container_index :: nat
  flowable_index :: nat

function flow_loop ::
    "('l::{plus,minus,ord} \<Rightarrow> bool) \<Rightarrow> ('l, 'a) render \<Rightarrow> nat \<Rightarrow> ('l, 'a) chain \<Rightarrow> ('l, 'a) chain \<times> unit result" where
  "flow_loop truthy render k self =
     (if flowable_index self < length (flowables self)
      then (case ContainerBase_flow truthy render (containers self ! k)
                   (flowables self ! flowable_index self) of
              ((flowable, container), Raise e) \<Rightarrow>
                (self\<lparr>flowables := (flowables self)[flowable_index self := flowable],
                      containers := (containers self)[k := container]\<rparr>, Raise e)
            | ((flowable, container), Return _) \<Rightarrow>
                flow_loop truthy render k
                  (self\<lparr>flowables := (flowables self)[flowable_index self := flowable],
                        containers := (containers self)[k := container],
                        flowable_index := flowable_index self + 1\<rparr>))
      else (self, Return ()))"
  by pat_completeness auto
termination
  by (relation "measure (\<lambda>(truthy, render, k, self). length (flowables self) - flowable_index self)")
    auto

declare flow_loop.simps [simp del]

definition fill_container ::
    "('l::{plus,minus,ord} \<Rightarrow> bool) \<Rightarrow> ('l, 'a) render \<Rightarrow> ('l, 'a) chain \<Rightarrow> ('l, 'a) chain \<times> unit result" where
  "fill_container truthy render self =
     (let k = container_index self;
          self = self\<lparr>container_index := container_index self + 1\<rparr>
      in flow_loop truthy render k self)"

lemma flow_loop_frame:
  "container_index (fst (flow_loop truthy render k self)) = container_index self \<and>
   length (containers (fst (flow_loop truthy render k self))) = length (containers self) \<and>
   length (flowables (fst (flow_loop truthy render k self))) = length (flowables self)"
proof (induction truthy render k self rule: flow_loop.induct)
  case (1 truthy render k self)
  show ?case
  proof (cases "flowable_index self < length (flowables self)")
    case False
    then show ?thesis by (simp add: flow_loop.simps)
  next
    case True
    obtain f c r where fl: "ContainerBase_flow truthy render (containers self ! k)
                   (flowables self ! flowable_index self) = ((f, c), r)"
      by (metis surj_pair)
    show ?thesis
    proof (cases r)
      case (Raise e)
      with True fl show ?thesis by (simp add: flow_loop.simps [of truthy render k self])
    next
      case (Return u)
      with True fl "1.IH" [OF True fl [symmetric] refl Return] show ?thesis
        by (simp add: flow_loop.simps [of truthy render k self])
    qed
  qed
qed

function Chain_render ::
    "('l::{plus,minus,ord} \<Rightarrow> bool) \<Rightarrow> ('l, 'a) render \<Rightarrow> ref \<Rightarrow> ('l, 'a) chain \<Rightarrow> ('l, 'a) chain \<times> unit result" where
  "Chain_render truthy render me self =
     (if container_index self < length (containers self)
      then (case fill_container truthy render self of
              (self, Raise e) \<Rightarrow>
                if int (container_index self) > int (length (containers self)) - 1
                then (self, Raise (EndOfPage me))
                else Chain_render truthy render me self
            | (self, Return _) \<Rightarrow> Chain_render truthy render me self)
      else (self, Return ()))"
  by pat_completeness auto
termination
proof (relation "measure (\<lambda>(truthy, render, me, self). length (containers self) - container_index self)",
    goal_cases)
  case 1
  show ?case by simp
next
  case (2 truthy render me self x1 x2 e)
  from 2(2) have "x1 = fst (fill_container truthy render self)" by (metis fst_conv)
  with 2(1) flow_loop_frame [of truthy render "container_index self"
      "self\<lparr>container_index := container_index self + 1\<rparr>"]
  show ?case by (simp add: fill_container_def Let_def)
next
  case (3 truthy render me self x1 x2 u)
  from 3(2) have "x1 = fst (fill_container truthy render self)" by (metis fst_conv)
  with 3(1) flow_loop_frame [of truthy render "container_index self"
      "self\<lparr>container_index := container_index self + 1\<rparr>"]
  show ?case by (simp add: fill_container_def Let_def)
qed

declare Chain_render.simps [simp del]

text \<open>
  One turn of the outer loop on a container that is not the last one: whatever the inner
  loop raises, the handler swallows it and the loop goes on with the chain as it is then.
\<close>

definition next_container :: "('l::{plus,minus,ord} \<Rightarrow> bool) \<Rightarrow> ('l, 'a) render \<Rightarrow> ('l, 'a) chain \<Rightarrow> ('l, 'a) chain" where
  "next_container truthy render self = fst (fill_container truthy render self)"

text \<open>Flowables and a chain to evaluate the theorems at concrete inputs.\<close>

abbreviation blk :: "real \<Rightarrow> real \<Rightarrow> real \<Rightarrow> bool \<Rightarrow> real block" where
  "blk a h b r \<equiv> \<lparr>space_above = a, space_below = b, resume = r, content_height = h\<rparr>"

abbreviation two_boxes :: "real block list \<Rightarrow> (real, (real, unit) block_ext) chain" where
  "two_boxes fs \<equiv> \<lparr>flowables = fs, containers = [box Container 10 None, box Container 10 None],
     container_index = 0, flowable_index = 0\<rparr>"

section \<open>Rendering a container and its children\<close>

text \<open>
  \<^verbatim>\<open>
  class ContainerBase:
      def __init__(self, parent, left=None, width=None, right=None, chain=None):
          ...
          self.chain = chain
          if chain is not None:
              chain.add_container(self)

      def render(self):
          end_of_page = None
          for child in self.children:
              try:
                  child.render()
              except EndOfPage as e:
                  end_of_page = e

          if self.flowables:
              for flowable in self.flowables:
                  self.flow(flowable)
          elif self.chain:
              try:
                  self.chain.render()
              except EndOfPage as e:
                  end_of_page = e

          if end_of_page is not None:
              raise end_of_page
  \<close>
  The chains are shared between containers and live in a store \<open>heap\<close>, from references
  to chains. A container constructed with a chain is appended to that chain's list, at some
  position \<open>k\<close> of it, and is the very object the chain flows into: such a container is
  \<open>InChain c k\<close>, and its record is the one in the chain's list. A container constructed
  without a chain is \<open>Own\<close> with its record. \<open>fetch\<close> reads the record of a container and
  \<open>store\<close> writes it back.

  A \<open>geometry\<close> is a container with what \<^verbatim>\<open>render\<close> reads of it: its children and the
  flowables assigned to it directly. \<open>flow_each\<close> is the loop over \<^verbatim>\<open>self.flowables\<close>;
  \<open>reraise\<close> is the last statement of \<^verbatim>\<open>render\<close>; \<open>render_own\<close> is \<^verbatim>\<open>render\<close> after the loop
  over the children; \<open>render_children\<close> is that loop, with \<^verbatim>\<open>end_of_page\<close> as its
  accumulator: its handler catches \<^verbatim>\<open>EndOfPage\<close> only, so that an \<^verbatim>\<open>EndOfContainer\<close>
  leaves the loop and the method.
\<close>

datatype 'l place = Own "'l container" | InChain ref nat

definition fetch :: "'l place \<Rightarrow> (ref \<Rightarrow> ('l, 'a) chain) \<Rightarrow> 'l container" where
  "fetch self heap = (case self of Own c \<Rightarrow> c | InChain h k \<Rightarrow> containers (heap h) ! k)"

definition store ::
    "'l place \<Rightarrow> 'l container \<Rightarrow> (ref \<Rightarrow> ('l, 'a) chain) \<Rightarrow> 'l place \<times> (ref \<Rightarrow> ('l, 'a) chain)" where
  "store self c heap =
     (case self of
        Own _ \<Rightarrow> (Own c, heap)
      | InChain h k \<Rightarrow> (InChain h k, heap(h := (heap h)\<lparr>containers := (containers (heap h))[k := c]\<rparr>)))"

datatype ('l, 'a) geometry =
  Geometry "'l place" "('l, 'a) geometry list" "('l, 'a) flowable_scheme list"

fun flow_each ::
    "('l::{plus,minus,ord} \<Rightarrow> bool) \<Rightarrow> ('l, 'a) render \<Rightarrow> 'l container
       \<Rightarrow> ('l, 'a) flowable_scheme list
       \<Rightarrow> (('l, 'a) flowable_scheme list \<times> 'l container) \<times> unit result" where
  "flow_each truthy render self [] = (([], self), Return ())"
| "flow_each truthy render self (flowable # rest) =
     (case ContainerBase_flow truthy render self flowable of
        ((flowable, self), Raise e) \<Rightarrow> ((flowable # rest, self), Raise e)
      | ((flowable, self), Return _) \<Rightarrow>
          (case flow_each truthy render self rest of
             ((rest, self), r) \<Rightarrow> ((flowable # rest, self), r)))"

definition reraise :: "signal option \<Rightarrow> unit result" where
  "reraise end_of_page = (case end_of_page of None \<Rightarrow> Return () | Some e \<Rightarrow> Raise e)"

definition render_own ::
    "('l::{plus,minus,ord} \<Rightarrow> bool) \<Rightarrow> ('l, 'a) render \<Rightarrow> 'l place
       \<Rightarrow> ('l, 'a) flowable_scheme list \<Rightarrow> signal option \<Rightarrow> (ref \<Rightarrow> ('l, 'a) chain)
       \<Rightarrow> ('l place \<times> ('l, 'a) flowable_scheme list \<times> (ref \<Rightarrow> ('l, 'a) chain)) \<times> unit result" where
  "render_own truthy render self flowables' end_of_page heap =
     (if flowables' \<noteq> []
      then (case flow_each truthy render (fetch self heap) flowables' of
              ((flowables', c), r) \<Rightarrow>
                (case store self c heap of
                   (self, heap) \<Rightarrow>
                     ((self, flowables', heap),
                      (case r of Raise e \<Rightarrow> Raise e | Return _ \<Rightarrow> reraise end_of_page))))
      else (case self of
              InChain h k \<Rightarrow>
                (case Chain_render truthy render h (heap h) of
                   (ch, Raise (EndOfPage x)) \<Rightarrow>
                     ((self, flowables', heap(h := ch)), reraise (Some (EndOfPage x)))
                 | (ch, Raise EndOfContainer) \<Rightarrow>
                     ((self, flowables', heap(h := ch)), Raise EndOfContainer)
                 | (ch, Return _) \<Rightarrow>
                     ((self, flowables', heap(h := ch)), reraise end_of_page))
            | Own _ \<Rightarrow> ((self, flowables', heap), reraise end_of_page)))"

fun ContainerBase_render ::
    "('l::{plus,minus,ord} \<Rightarrow> bool) \<Rightarrow> ('l, 'a) render \<Rightarrow> ('l, 'a) geometry
       \<Rightarrow> (ref \<Rightarrow> ('l, 'a) chain)
       \<Rightarrow> (('l, 'a) geometry \<times> (ref \<Rightarrow> ('l, 'a) chain)) \<times> unit result"
  and render_children ::
    "('l \<Rightarrow> bool) \<Rightarrow> ('l, 'a) render \<Rightarrow> ('l, 'a) geometry list \<Rightarrow> signal option
       \<Rightarrow> (ref \<Rightarrow> ('l, 'a) chain)
       \<Rightarrow> (('l, 'a) geometry list \<times> (ref \<Rightarrow> ('l, 'a) chain)) \<times> signal option \<times> unit result" where
  "ContainerBase_render truthy render (Geometry self children flowables') heap =
     (case render_children truthy render children None heap of
        ((children, heap), end_of_page, Raise e) \<Rightarrow>
          ((Geometry self children flowables', heap), Raise e)
      | ((children, heap), end_of_page, Return _) \<Rightarrow>
          (case render_own truthy render self flowables' end_of_page heap of
             ((self, flowables', heap), r) \<Rightarrow> ((Geometry self children flowables', heap), r)))"
| "render_children truthy render [] end_of_page heap = (([], heap), end_of_page, Return ())"
| "render_children truthy render (child # rest) end_of_page heap =
     (case ContainerBase_render truthy render child heap of
        ((child, heap), Raise (EndOfPage x)) \<Rightarrow>
          (case render_children truthy render rest (Some (EndOfPage x)) heap of
             ((rest, heap), r) \<Rightarrow> ((child # rest, heap), r))
      | ((child, heap), Raise EndOfContainer) \<Rightarrow>
          ((child # rest, heap), end_of_page, Raise EndOfContainer)
      | ((child, heap), Return _) \<Rightarrow>
          (case render_children truthy render rest end_of_page heap of
             ((rest, heap), r) \<Rightarrow> ((child # rest, heap), r)))"

text \<open>
  Rendering every child in document order whatever any of them raises, as the
  specification words it (``sibling rendering must not be short-circuited''), with the list
  of the children's results; and the signal that \<^verbatim>\<open>end_of_page\<close> holds after a list of results
  when every raised signal is collected: the last one raised, if any.
\<close>

fun render_every_child ::
    "('l::{plus,minus,ord} \<Rightarrow> bool) \<Rightarrow> ('l, 'a) render \<Rightarrow> ('l, 'a) geometry list
       \<Rightarrow> (ref \<Rightarrow> ('l, 'a) chain)
       \<Rightarrow> (('l, 'a) geometry list \<times> (ref \<Rightarrow> ('l, 'a) chain)) \<times> unit result list" where
  "render_every_child truthy render [] heap = (([], heap), [])"
| "render_every_child truthy render (child # rest) heap =
     (case ContainerBase_render truthy render child heap of
        ((child, heap), r) \<Rightarrow>
          (case render_every_child truthy render rest heap of
             ((rest, heap), rs) \<Rightarrow> ((child # rest, heap), r # rs)))"

fun collected :: "signal option \<Rightarrow> unit result list \<Rightarrow> signal option" where
  "collected end_of_page [] = end_of_page"
| "collected end_of_page (Return _ # rs) = collected end_of_page rs"
| "collected end_of_page (Raise e # rs) = collected (Some e) rs"

abbreviation no_chains :: "ref \<Rightarrow> (real, (real, unit) block_ext) chain" where
  "no_chains \<equiv> (\<lambda>c. \<lparr>flowables = [], containers = [], container_index = 0, flowable_index = 0\<rparr>)"

section \<open>The document and its convergence loop\<close>












section \<open>Properties of \<open>advance\<close>\<close>

subsection \<open>Rounding\<close>

lemma floor_log2_between:
  assumes "2 ^ k \<le> x" and "x < 2 ^ Suc k"
  shows "\<lfloor>log 2 x\<rfloor> = int k"
proof -
  from assms(1) have pos: "0 < x" by (smt (verit) zero_less_power)
  have p: "(2::real) powr real n = 2 ^ n" for n by (simp add: powr_realpow)
  from assms(1) have "(2::real) powr real k \<le> x" by (simp only: p)
  then have 1: "real k \<le> log 2 x" using pos by (simp add: le_log_iff)
  from assms(2) have "x < (2::real) powr real (Suc k)" by (simp only: p)
  then have 2: "log 2 x < real (Suc k)" using pos by (simp add: log_less_iff)
  have "real_of_int (int k) \<le> log 2 x" and "log 2 x < real_of_int (int k) + 1"
    using 1 2 by simp_all
  then show ?thesis by (simp only: floor_eq_iff)
qed

lemma round_double_in_binade_53:
  assumes "2 ^ 53 \<le> x" and "x < 2 ^ 54"
  shows "round_double x = Finite (of_int (nearest_even (x / 2)) * 2)"
proof -
  have e: "\<lfloor>log 2 \<bar>x\<bar>\<rfloor> = 53"
    using floor_log2_between [of 53 "\<bar>x\<bar>"] assms by simp
  have pos: "0 < x" using assms(1) by simp
  have le: "x / 2 \<le> 2 ^ 53" using assms(2) by simp
  have "real_of_int (nearest_even (x / 2)) \<le> 2 ^ 53"
  proof -
    have "nearest_even (x / 2) \<le> \<lfloor>x / 2\<rfloor> + 1" by (simp add: nearest_even_def)
    moreover have "x / 2 < real_of_int (2 ^ 53)" using assms(2) by simp
    then have "\<lfloor>x / 2\<rfloor> < 2 ^ 53" by (simp only: floor_less_iff)
    ultimately have "nearest_even (x / 2) \<le> 2 ^ 53" by linarith
    then show ?thesis by (metis of_int_le_iff of_int_numeral of_int_power)
  qed
  then have "\<not> (2::real) powi 1024 \<le> real_of_int (nearest_even (x / 2)) * 2"
    by (simp add: power_int_def)
  with e pos show ?thesis
    by (simp add: round_double_def Let_def power_int_def)
qed

lemma float_add_binade_53:
  "2 ^ 53 \<le> x + y \<Longrightarrow> x + y < 2 ^ 54 \<Longrightarrow>
   Finite x + Finite y = Finite (of_int (nearest_even ((x + y) / 2)) * 2)"
  by (simp add: plus_pyfloat_def round_double_in_binade_53)

subsection \<open>Bounded containers\<close>

lemma advance_Container:
  "cls c = Container \<Longrightarrow> advance truthy h c =
     (c\<lparr>flowable_offset := flowable_offset c + h\<rparr>,
      if height c < flowable_offset c + h then Raise EndOfContainer else Return ())"
  by (simp add: advance_def Container_advance_def Let_def)

lemma advances_Container:
  "cls c = Container \<Longrightarrow>
   \<forall>j. 0 < j \<and> j \<le> length hs \<longrightarrow> \<not> height c < foldl (+) (flowable_offset c) (take j hs) \<Longrightarrow>
   advances truthy hs c = (c\<lparr>flowable_offset := foldl (+) (flowable_offset c) hs\<rparr>, Return ())"
proof (induction hs arbitrary: c)
  case Nil
  then show ?case by simp
next
  case (Cons h hs)
  let ?c' = "c\<lparr>flowable_offset := flowable_offset c + h\<rparr>"
  from Cons.prems(2) have "0 < (1::nat) \<and> 1 \<le> length (h # hs) \<longrightarrow>
      \<not> height c < foldl (+) (flowable_offset c) (take 1 (h # hs))"
    by blast
  then have fit: "\<not> height c < flowable_offset c + h" by simp
  have rest: "\<forall>j. 0 < j \<and> j \<le> length hs \<longrightarrow>
      \<not> height ?c' < foldl (+) (flowable_offset ?c') (take j hs)"
  proof (intro allI impI)
    fix j assume "0 < j \<and> j \<le> length hs"
    then have "0 < Suc j \<and> Suc j \<le> length (h # hs)" by simp
    with Cons.prems(2) have "\<not> height c < foldl (+) (flowable_offset c) (take (Suc j) (h # hs))"
      by blast
    then show "\<not> height ?c' < foldl (+) (flowable_offset ?c') (take j hs)" by simp
  qed
  have "cls ?c' = Container" using Cons.prems(1) by simp
  from Cons.IH [OF this rest] fit Cons.prems(1) show ?case
    by (simp add: advance_Container)
qed

text \<open>
  Claim C3, as amended. In a bounded container of height \<open>H\<close> let the calls
  \<open>advance(h1)\<close>, \<open>advance(h2)\<close>, ... be made in turn, and let the running offset be the
  one the code accumulates: the offset at the start, then \<open>h1\<close> added to it, then \<open>h2\<close>
  added to that, each sum taken in the arithmetic of the lengths (for floats, rounded).
  As long as no running offset after the calls up to the \<open>n\<close>-th exceeds \<open>H\<close>, none of the first
  \<open>n\<close> calls raises and the offset after them is that running offset; the next call raises
  \<open>EndOfContainer\<close> if and only if the running offset with \<open>h(n+1)\<close> added is strictly greater
  than \<open>H\<close>.
\<close>

theorem Container_overflow_at_first_excess:
  assumes "cls c = Container" and "n \<le> length hs"
    and "\<forall>j. 0 < j \<and> j \<le> n \<longrightarrow> \<not> height c < foldl (+) (flowable_offset c) (take j hs)"
  shows "advances truthy (take n hs) c
           = (c\<lparr>flowable_offset := foldl (+) (flowable_offset c) (take n hs)\<rparr>, Return ()) \<and>
         (n < length hs \<longrightarrow>
            (snd (advance truthy (hs ! n) (fst (advances truthy (take n hs) c))) = Raise EndOfContainer
               \<longleftrightarrow> height c < foldl (+) (flowable_offset c) (take (Suc n) hs)))"
proof -
  have "\<forall>j. 0 < j \<and> j \<le> length (take n hs) \<longrightarrow>
          \<not> height c < foldl (+) (flowable_offset c) (take j (take n hs))"
    using assms(2,3) by (simp add: min_def)
  from advances_Container [OF assms(1) this, of truthy]
  have run: "advances truthy (take n hs) c
      = (c\<lparr>flowable_offset := foldl (+) (flowable_offset c) (take n hs)\<rparr>, Return ())"
    by simp
  have "snd (advance truthy (hs ! n) (fst (advances truthy (take n hs) c))) = Raise EndOfContainer
               \<longleftrightarrow> height c < foldl (+) (flowable_offset c) (take (Suc n) hs)" if "n < length hs"
    using that assms(1) by (simp add: run advance_Container take_Suc_conv_app_nth)
  with run show ?thesis by blast
qed

theorem Container_overflow_at_first_excess_witness:
  "advances (\<lambda>x. x \<noteq> 0) (take 2 [3, 4, 5, 1]) (box Container 10 None)
     = ((box Container 10 None)\<lparr>flowable_offset := 7\<rparr>, Return ()) \<and>
   snd (advance (\<lambda>x. x \<noteq> 0) 5
         (fst (advances (\<lambda>x. x \<noteq> 0) (take 2 [3, 4, 5, 1]) (box Container 10 None))))
     = Raise EndOfContainer"
  using Container_overflow_at_first_excess [of "box Container 10 None" 2 "[3, 4, 5, 1]"
      "\<lambda>x. x \<noteq> 0"]
  by (simp add: less_Suc_eq_le le_Suc_eq numeral_2_eq_2 advance_def Container_advance_def Let_def)

text \<open>
  Claim C3 as stated, with the running sum taken exactly, fails in the floats of the code.
  In a container of height \<open>10 ^ 16\<close>, \<open>advance(1e16)\<close> and then \<open>advance(1.0)\<close> both return,
  although the exact running sum \<open>10 ^ 16 + 1\<close> exceeds the height: the float sum is
  \<open>10 ^ 16\<close> again. In a container of height \<open>2 ^ 53 + 6\<close>, after \<open>advance(2 ^ 53 + 2)\<close> and
  \<open>advance(1.0)\<close> the call \<open>advance(3.0)\<close> raises, although the exact running sum
  \<open>2 ^ 53 + 6\<close> does not exceed the height: the offset is \<open>2 ^ 53 + 4\<close> before the call, not
  the exact partial sum \<open>2 ^ 53 + 3\<close>, and \<open>2 ^ 53 + 8\<close> after it.
\<close>

theorem Container_float_offset_is_not_the_exact_sum:
  "advances (\<lambda>x. x \<noteq> 0) [Finite (10 ^ 16), Finite 1] (float_box Container (Finite (10 ^ 16)) None)
     = ((float_box Container (Finite (10 ^ 16)) None)\<lparr>flowable_offset := Finite (10 ^ 16)\<rparr>,
        Return ()) \<and>
   (10 ^ 16 :: real) < 0 + 10 ^ 16 + 1 \<and>
   advances (\<lambda>x. x \<noteq> 0) [Finite (2 ^ 53 + 2), Finite 1]
       (float_box Container (Finite (2 ^ 53 + 6)) None)
     = ((float_box Container (Finite (2 ^ 53 + 6)) None)\<lparr>flowable_offset := Finite (2 ^ 53 + 4)\<rparr>,
        Return ()) \<and>
   advance (\<lambda>x. x \<noteq> 0) (Finite 3)
       ((float_box Container (Finite (2 ^ 53 + 6)) None)\<lparr>flowable_offset := Finite (2 ^ 53 + 4)\<rparr>)
     = ((float_box Container (Finite (2 ^ 53 + 6)) None)\<lparr>flowable_offset := Finite (2 ^ 53 + 8)\<rparr>,
        Raise EndOfContainer) \<and>
   \<not> (2 ^ 53 + 6 :: real) < 0 + (2 ^ 53 + 2) + 1 + 3"
  by (simp add: advance_def Container_advance_def Let_def zero_pyfloat_def less_pyfloat_def
      float_add_binade_53 nearest_even_def)

text \<open>
  Claim C9. When \<open>advance(h)\<close> raises \<open>EndOfContainer\<close> in a bounded container, the cursor
  offset is not rolled back: after the call it is the offset before plus \<open>h\<close>, which is
  strictly greater than the (unchanged) height of the container, and every later call
  \<open>advance(h')\<close> adds to this offset and is compared on it.
\<close>

theorem Container_advance_not_atomic:
  assumes "cls c = Container" and "snd (advance truthy h c) = Raise EndOfContainer"
  shows "flowable_offset (fst (advance truthy h c)) = flowable_offset c + h \<and>
         height (fst (advance truthy h c)) = height c \<and>
         height c < flowable_offset (fst (advance truthy h c)) \<and>
         (\<forall>h'. advance truthy h' (fst (advance truthy h c)) =
            (c\<lparr>flowable_offset := flowable_offset c + h + h'\<rparr>,
             if height c < flowable_offset c + h + h' then Raise EndOfContainer else Return ()))"
  using assms by (simp add: advance_Container split: if_splits)

theorem Container_advance_not_atomic_witness:
  "snd (advance (\<lambda>x. x \<noteq> 0) 7 (box Container 5 None)) = Raise EndOfContainer \<and>
   flowable_offset (fst (advance (\<lambda>x. x \<noteq> 0) 7 (box Container 5 None))) = 7 \<and>
   advance (\<lambda>x. x \<noteq> 0) 1 (fst (advance (\<lambda>x. x \<noteq> 0) 7 (box Container 5 None)))
     = ((box Container 5 None)\<lparr>flowable_offset := 8\<rparr>, Raise EndOfContainer)"
proof -
  have r: "snd (advance (\<lambda>x. x \<noteq> 0) 7 (box Container 5 None)) = Raise EndOfContainer"
    by (simp add: advance_def Container_advance_def Let_def)
  from Container_advance_not_atomic [OF _ r] r show ?thesis by simp
qed

subsection \<open>Expanding containers\<close>

text \<open>
  The same holds of an expanding container: a call that raises leaves the offset advanced,
  and the height as it was.
\<close>

lemma ExpandingContainer_advance_not_atomic:
  "cls c = ExpandingContainer \<Longrightarrow> snd (advance truthy h c) = Raise EndOfContainer \<Longrightarrow>
   flowable_offset (fst (advance truthy h c)) = flowable_offset c + h \<and>
   height (fst (advance truthy h c)) = height c"
  by (simp add: advance_def ExpandingContainer_advance_def expand_def Let_def
      split: option.splits if_splits)

lemma advance_Expanding_uncapped:
  "cls c = ExpandingContainer \<Longrightarrow> max_height c = None \<Longrightarrow> advance truthy h c =
     (c\<lparr>flowable_offset := flowable_offset c + h, height := height c + h\<rparr>, Return ())"
  by (simp add: advance_def ExpandingContainer_advance_def expand_def Let_def)

lemma advance_Expanding_capped:
  "cls c = ExpandingContainer \<Longrightarrow> max_height c = Some M \<Longrightarrow> truthy M \<Longrightarrow> advance truthy h c =
     (if M < flowable_offset c + h then (c\<lparr>flowable_offset := flowable_offset c + h\<rparr>, Raise EndOfContainer)
      else (c\<lparr>flowable_offset := flowable_offset c + h, height := height c + h\<rparr>, Return ()))"
  by (simp add: advance_def ExpandingContainer_advance_def expand_def Let_def)

lemma advance_Expanding_falsy:
  "cls c = ExpandingContainer \<Longrightarrow> max_height c = Some M \<Longrightarrow> \<not> truthy M \<Longrightarrow> advance truthy h c =
     (c\<lparr>flowable_offset := flowable_offset c + h, height := height c + h\<rparr>, Return ())"
  by (simp add: advance_def ExpandingContainer_advance_def expand_def Let_def)

lemma advances_Expanding_uncapped:
  "cls c = ExpandingContainer \<Longrightarrow> max_height c = None \<Longrightarrow>
   advances truthy hs c =
     (c\<lparr>flowable_offset := foldl (+) (flowable_offset c) hs,
        height := foldl (+) (height c) hs\<rparr>, Return ())"
proof (induction hs arbitrary: c)
  case Nil
  then show ?case by simp
next
  case (Cons h hs)
  let ?c' = "c\<lparr>flowable_offset := flowable_offset c + h, height := height c + h\<rparr>"
  have "cls ?c' = ExpandingContainer" and "max_height ?c' = None" using Cons.prems by simp_all
  from Cons.IH [OF this] Cons.prems show ?case
    by (simp add: advance_Expanding_uncapped)
qed

lemma advances_Expanding_falsy:
  "cls c = ExpandingContainer \<Longrightarrow> max_height c = Some M \<Longrightarrow> \<not> truthy M \<Longrightarrow>
   advances truthy hs c =
     (c\<lparr>flowable_offset := foldl (+) (flowable_offset c) hs,
        height := foldl (+) (height c) hs\<rparr>, Return ())"
proof (induction hs arbitrary: c)
  case Nil
  then show ?case by simp
next
  case (Cons h hs)
  let ?c' = "c\<lparr>flowable_offset := flowable_offset c + h, height := height c + h\<rparr>"
  have "cls ?c' = ExpandingContainer" and "max_height ?c' = Some M" using Cons.prems by simp_all
  from Cons.IH [OF this Cons.prems(3)] Cons.prems show ?case
    by (simp add: advance_Expanding_falsy)
qed

lemma advances_Expanding_capped:
  "cls c = ExpandingContainer \<Longrightarrow> max_height c = Some M \<Longrightarrow> truthy M \<Longrightarrow>
   \<forall>j. 0 < j \<and> j \<le> length hs \<longrightarrow> \<not> M < foldl (+) (flowable_offset c) (take j hs) \<Longrightarrow>
   advances truthy hs c =
     (c\<lparr>flowable_offset := foldl (+) (flowable_offset c) hs,
        height := foldl (+) (height c) hs\<rparr>, Return ())"
proof (induction hs arbitrary: c)
  case Nil
  then show ?case by simp
next
  case (Cons h hs)
  let ?c' = "c\<lparr>flowable_offset := flowable_offset c + h, height := height c + h\<rparr>"
  from Cons.prems(4) have "0 < (1::nat) \<and> 1 \<le> length (h # hs) \<longrightarrow>
      \<not> M < foldl (+) (flowable_offset c) (take 1 (h # hs))"
    by blast
  then have fit: "\<not> M < flowable_offset c + h" by simp
  have rest: "\<forall>j. 0 < j \<and> j \<le> length hs \<longrightarrow> \<not> M < foldl (+) (flowable_offset ?c') (take j hs)"
  proof (intro allI impI)
    fix j assume "0 < j \<and> j \<le> length hs"
    then have "0 < Suc j \<and> Suc j \<le> length (h # hs)" by simp
    with Cons.prems(4) have "\<not> M < foldl (+) (flowable_offset c) (take (Suc j) (h # hs))"
      by blast
    then show "\<not> M < foldl (+) (flowable_offset ?c') (take j hs)" by simp
  qed
  have "cls ?c' = ExpandingContainer" and "max_height ?c' = Some M"
    using Cons.prems(1,2) by simp_all
  from Cons.IH [OF this Cons.prems(3) rest] fit Cons.prems(1,2,3) show ?case
    by (simp add: advance_Expanding_capped)
qed

text \<open>
  Claim C4, as amended. In an expanding container fresh from its constructor (offset 0,
  height 0) let the running amount be the one the code accumulates, each sum taken in the
  arithmetic of the lengths (for floats, rounded). With a cap \<open>max_height = M\<close> that counts
  as true in a condition, as long as no running amount exceeds \<open>M\<close> each call returns and the
  height is exactly the running amount, and the next call raises \<open>EndOfContainer\<close> if and
  only if the running amount with it is strictly greater than \<open>M\<close>; with no \<open>max_height\<close>, no
  call ever raises and the height is the running amount of all advances.
\<close>

theorem ExpandingContainer_grows_to_cap:
  assumes "cls c = ExpandingContainer" and "flowable_offset c = 0" and "height c = 0"
  shows "(\<forall>M. max_height c = Some M \<and> truthy M \<and> n \<le> length hs \<and>
              (\<forall>j. 0 < j \<and> j \<le> n \<longrightarrow> \<not> M < foldl (+) 0 (take j hs)) \<longrightarrow>
            advances truthy (take n hs) c =
              (c\<lparr>flowable_offset := foldl (+) 0 (take n hs),
                 height := foldl (+) 0 (take n hs)\<rparr>, Return ()) \<and>
            (n < length hs \<longrightarrow>
              (snd (advance truthy (hs ! n) (fst (advances truthy (take n hs) c))) = Raise EndOfContainer
                 \<longleftrightarrow> M < foldl (+) 0 (take (Suc n) hs)))) \<and>
         (max_height c = None \<longrightarrow>
            advances truthy hs c =
              (c\<lparr>flowable_offset := foldl (+) 0 hs, height := foldl (+) 0 hs\<rparr>, Return ()))"
proof (intro conjI allI impI)
  fix M
  assume a: "max_height c = Some M \<and> truthy M \<and> n \<le> length hs \<and>
              (\<forall>j. 0 < j \<and> j \<le> n \<longrightarrow> \<not> M < foldl (+) 0 (take j hs))"
  then have "\<forall>j. 0 < j \<and> j \<le> length (take n hs) \<longrightarrow>
          \<not> M < foldl (+) (flowable_offset c) (take j (take n hs))"
    using assms(2) by (simp add: min_def)
  from advances_Expanding_capped [OF assms(1) _ _ this, of truthy] a assms(2,3)
  show run: "advances truthy (take n hs) c =
      (c\<lparr>flowable_offset := foldl (+) 0 (take n hs), height := foldl (+) 0 (take n hs)\<rparr>, Return ())"
    by simp
  assume "n < length hs"
  then show "snd (advance truthy (hs ! n) (fst (advances truthy (take n hs) c))) = Raise EndOfContainer
                 \<longleftrightarrow> M < foldl (+) 0 (take (Suc n) hs)"
    using a assms(1) by (simp add: run advance_Expanding_capped take_Suc_conv_app_nth)
next
  assume "max_height c = None"
  from advances_Expanding_uncapped [OF assms(1) this, of truthy hs] assms(2,3)
  show "advances truthy hs c
      = (c\<lparr>flowable_offset := foldl (+) 0 hs, height := foldl (+) 0 hs\<rparr>, Return ())"
    by simp
qed

theorem ExpandingContainer_grows_to_cap_witness:
  "(advances (\<lambda>x. x \<noteq> 0) (take 2 [3, 4, 5]) (box ExpandingContainer 0 (Some 10))
      = ((box ExpandingContainer 0 (Some 10))\<lparr>flowable_offset := 7, height := 7\<rparr>, Return ()) \<and>
    snd (advance (\<lambda>x. x \<noteq> 0) 5
          (fst (advances (\<lambda>x. x \<noteq> 0) (take 2 [3, 4, 5]) (box ExpandingContainer 0 (Some 10)))))
      = Raise EndOfContainer) \<and>
   advances (\<lambda>x. x \<noteq> 0) [3, 4, 5] (box ExpandingContainer 0 None)
      = ((box ExpandingContainer 0 None)\<lparr>flowable_offset := 12, height := 12\<rparr>, Return ())"
  using ExpandingContainer_grows_to_cap [of "box ExpandingContainer 0 (Some 10)" "\<lambda>x. x \<noteq> 0" 2 "[3, 4, 5]"]
    ExpandingContainer_grows_to_cap [of "box ExpandingContainer 0 None" "\<lambda>x. x \<noteq> 0" 0 "[3, 4, 5]"]
  by (simp add: less_Suc_eq_le le_Suc_eq numeral_2_eq_2 advance_def ExpandingContainer_advance_def
      expand_def Let_def)

text \<open>
  Claim C4 as stated fails twice. A cap of \<open>0\<close>, given as a number, is false in the condition
  \<^verbatim>\<open>self.max_height and ...\<close>: \<open>advance(1)\<close> and \<open>advance(2)\<close> return and the height grows to 3,
  above the cap. And with the cap \<open>10 ^ 16\<close> in floats, \<open>advance(1e16)\<close> and then
  \<open>advance(1.0)\<close> both return, although the exact cumulative amount \<open>10 ^ 16 + 1\<close> exceeds
  the cap, and the height is \<open>10 ^ 16\<close>, not that amount.
\<close>

theorem ExpandingContainer_cap_zero_or_rounded_is_passed:
  "advances (\<lambda>x. x \<noteq> 0) [1, 2] (box ExpandingContainer 0 (Some 0))
     = ((box ExpandingContainer 0 (Some 0))\<lparr>flowable_offset := 3, height := 3\<rparr>, Return ()) \<and>
   advances (\<lambda>x. x \<noteq> 0) [Finite (10 ^ 16), Finite 1]
       (float_box ExpandingContainer 0 (Some (Finite (10 ^ 16))))
     = ((float_box ExpandingContainer 0 (Some (Finite (10 ^ 16))))
          \<lparr>flowable_offset := Finite (10 ^ 16), height := Finite (10 ^ 16)\<rparr>, Return ()) \<and>
   (10 ^ 16 :: real) < 0 + 10 ^ 16 + 1"
  by (simp add: advance_def ExpandingContainer_advance_def expand_def Let_def zero_pyfloat_def
      less_pyfloat_def float_add_binade_53 nearest_even_def)

section \<open>Properties of the constructors\<close>

lemma ContainerBase_init_parent:
  assumes "l = None \<and> w = None \<longrightarrow> (\<forall>x. r = Some x \<longrightarrow> truthy x)"
  shows "ContainerBase_init truthy (Some p) l w r =
     Inr (resolved_start l w r, resolved_extent (width p) l w r,
          resolved_start l w r + resolved_extent (width p) l w r)"
  using assms
  by (auto simp: ContainerBase_init_def py_and_def py_sub_def resolved_start_def resolved_extent_def
      split: option.splits)

lemma vertical_parent:
  assumes "t = None \<and> h = None \<longrightarrow> (\<forall>x. b = Some x \<longrightarrow> truthy x)"
  shows "(case t of None \<Rightarrow> if py_and truthy b h = None then Inr 0 else py_sub b h
          | Some x \<Rightarrow> Inr x) = Inr (resolved_start t h b)"
  using assms
  by (auto simp: py_and_def py_sub_def resolved_start_def split: option.splits)

text \<open>
  Claim C7, as amended. Constructing a \<open>Container\<close> as a child of a parent succeeds
  whatever subset of \<open>left\<close>, \<open>width\<close>, \<open>right\<close> and of \<open>top\<close>, \<open>height\<close>, \<open>bottom\<close> is given,
  provided that a \<open>right\<close> given without \<open>left\<close> and \<open>width\<close>, and a \<open>bottom\<close> given without
  \<open>top\<close> and \<open>height\<close>, counts as true in a condition: a start that is not given
  is 0, or end minus extent when both are given; an extent that is not given reaches to the
  given end, or else to the parent's extent; and \<open>right\<close> is always \<open>left + width\<close>,
  \<open>bottom\<close> always \<open>top + height\<close>, so that a given end that contradicts the given start and
  extent is dropped.
\<close>

theorem Container_init_never_fails_under_parent:
  assumes "l = None \<and> w = None \<longrightarrow> (\<forall>x. r = Some x \<longrightarrow> truthy x)"
    and "t = None \<and> h = None \<longrightarrow> (\<forall>x. b = Some x \<longrightarrow> truthy x)"
  shows "Container_init truthy canvas (Some p) l t w h r b =
     Inr \<lparr>cls = Container,
          left = resolved_start l w r,
          width = resolved_extent (width p) l w r,
          right = resolved_start l w r + resolved_extent (width p) l w r,
          top = resolved_start t h b,
          height = resolved_extent (height p) t h b,
          bottom = resolved_start t h b + resolved_extent (height p) t h b,
          max_height = None, flowable_offset = 0, canvas_height = canvas\<rparr>"
  unfolding Container_init_def
  by (simp add: ContainerBase_init_parent [OF assms(1)] vertical_parent [OF assms(2)]
      resolved_extent_def split: option.splits)

theorem Container_init_never_fails_under_parent_witness:
  "Container_init (\<lambda>x. x \<noteq> 0) 0 (Some (box Container 200 None))
      None (Some 20) None None (Some 90) None
    = Inr \<lparr>cls = Container, left = 0, width = 90, right = 90, top = 20, height = 180,
           bottom = 200, max_height = None, flowable_offset = 0, canvas_height = 0\<rparr>"
  using Container_init_never_fails_under_parent [where truthy = "\<lambda>x. x \<noteq> 0" and canvas = 0
      and p = "box Container 200 None" and l = None and t = "Some 20" and w = None
      and h = None and r = "Some 90" and b = None]
  by (simp add: resolved_start_def resolved_extent_def)

text \<open>
  Claim C7 as stated fails: construction succeeds with nothing given at all (the container
  fills its parent), and with \<open>left = 10\<close>, \<open>width = 20\<close>, \<open>right = 90\<close>, which contradict
  each other (\<open>right\<close> becomes 30).
\<close>

theorem Container_init_accepts_any_subset:
  "Container_init (\<lambda>x. x \<noteq> 0) 0 (Some (box Container 200 None))
      None None None None None None
    = Inr \<lparr>cls = Container, left = 0, width = 100, right = 100, top = 0, height = 200,
           bottom = 200, max_height = None, flowable_offset = 0, canvas_height = 0\<rparr> \<and>
   Container_init (\<lambda>x. x \<noteq> 0) 0 (Some (box Container 200 None))
      (Some 10) None (Some 20) None (Some 90) None
    = Inr \<lparr>cls = Container, left = 10, width = 20, right = 30, top = 0, height = 200,
           bottom = 200, max_height = None, flowable_offset = 0, canvas_height = 0\<rparr>"
  by (simp add: Container_init_def ContainerBase_init_def py_and_def py_sub_def)

text \<open>
  With \<open>left\<close> and \<open>width\<close> not given and a given \<open>right\<close> that counts as false in a
  condition (the number 0), \<^verbatim>\<open>(right and width) is None\<close> is false and \<^verbatim>\<open>right - width\<close>
  subtracts \<^verbatim>\<open>None\<close>.
\<close>

lemma ContainerBase_init_falsy_right:
  "\<not> truthy x \<Longrightarrow> ContainerBase_init truthy parent None None (Some x) = Inl TypeError"
  by (simp add: ContainerBase_init_def py_and_def py_sub_def)

section \<open>Properties of \<open>flow\<close>\<close>

lemma advance_offset:
  "flowable_offset (fst (advance truthy h c)) = flowable_offset c + h"
  by (simp add: advance_def Container_advance_def ExpandingContainer_advance_def expand_def Let_def
      split: container_class.splits option.splits)

lemma advance_canvas_height:
  "canvas_height (fst (advance truthy h c)) = canvas_height c"
  by (simp add: advance_def Container_advance_def ExpandingContainer_advance_def expand_def Let_def
      split: container_class.splits option.splits)

lemma Flowable_flow_resumed:
  "resume self \<Longrightarrow>
   Flowable_flow truthy render self container =
     (case render self container of
        ((s, c), Raise e) \<Rightarrow> ((s, c), Raise e)
      | ((s, c), Return u) \<Rightarrow>
          ((s\<lparr>resume := False\<rparr>, fst (advance truthy (space_below s) c)),
           Return (cursor (fst (advance truthy (space_below s) c)) - cursor container)))"
  by (simp add: Flowable_flow_def Let_def split: prod.splits result.splits)

lemma Flowable_flow_fresh_overflow:
  "\<not> resume self \<Longrightarrow> advance truthy (space_above self) container = (c1, Raise e) \<Longrightarrow>
   Flowable_flow truthy render self container = ((self\<lparr>resume := True\<rparr>, c1), Raise e)"
  by (simp add: Flowable_flow_def Let_def)

lemma Flowable_flow_fresh_fits:
  "\<not> resume self \<Longrightarrow> advance truthy (space_above self) container = (c1, Return u) \<Longrightarrow>
   Flowable_flow truthy render self container =
     (case render (self\<lparr>resume := True\<rparr>) c1 of
        ((s, c), Raise e) \<Rightarrow> ((s, c), Raise e)
      | ((s, c), Return u) \<Rightarrow>
          ((s\<lparr>resume := False\<rparr>, fst (advance truthy (space_below s) c)),
           Return (cursor (fst (advance truthy (space_below s) c)) - cursor container)))"
  by (simp add: Flowable_flow_def Let_def split: prod.splits result.splits)

text \<open>
  Claim C8. When the \<open>resume\<close> flag of a flowable is true at the call of \<open>flow\<close>, the cursor
  is not advanced by \<open>space_above\<close>: \<open>render\<close> receives the container as it was passed, and the
  call is what follows from that. When the flag is false, the cursor is advanced by
  \<open>space_above\<close> before anything is rendered: if that advance raises, \<open>flow\<close> raises with the
  container so advanced; if it returns, the flowable and the container end as in the flow of
  the resumed flowable into the container advanced by \<open>space_above\<close>.
\<close>

theorem space_above_applied_iff_not_resumed:
  "(resume self \<longrightarrow>
      Flowable_flow truthy render self container =
        (case render self container of
           ((s, c), Raise e) \<Rightarrow> ((s, c), Raise e)
         | ((s, c), Return u) \<Rightarrow>
             ((s\<lparr>resume := False\<rparr>, fst (advance truthy (space_below s) c)),
              Return (cursor (fst (advance truthy (space_below s) c)) - cursor container)))) \<and>
   (\<not> resume self \<longrightarrow>
      flowable_offset (fst (advance truthy (space_above self) container))
        = flowable_offset container + space_above self \<and>
      (case advance truthy (space_above self) container of
         (c1, Raise e) \<Rightarrow>
           Flowable_flow truthy render self container = ((self\<lparr>resume := True\<rparr>, c1), Raise e)
       | (c1, Return u) \<Rightarrow>
           fst (Flowable_flow truthy render self container)
             = fst (Flowable_flow truthy render (self\<lparr>resume := True\<rparr>) c1)))"
proof (intro conjI impI)
  assume "resume self"
  then show "Flowable_flow truthy render self container =
        (case render self container of
           ((s, c), Raise e) \<Rightarrow> ((s, c), Raise e)
         | ((s, c), Return u) \<Rightarrow>
             ((s\<lparr>resume := False\<rparr>, fst (advance truthy (space_below s) c)),
              Return (cursor (fst (advance truthy (space_below s) c)) - cursor container)))"
    by (rule Flowable_flow_resumed)
next
  show "flowable_offset (fst (advance truthy (space_above self) container))
        = flowable_offset container + space_above self"
    by (rule advance_offset)
next
  assume fresh: "\<not> resume self"
  obtain c1 r where a: "advance truthy (space_above self) container = (c1, r)"
    by (metis surj_pair)
  show "case advance truthy (space_above self) container of
         (c1, Raise e) \<Rightarrow>
           Flowable_flow truthy render self container = ((self\<lparr>resume := True\<rparr>, c1), Raise e)
       | (c1, Return u) \<Rightarrow>
           fst (Flowable_flow truthy render self container)
             = fst (Flowable_flow truthy render (self\<lparr>resume := True\<rparr>) c1)"
  proof (cases r)
    case (Raise e)
    with fresh a show ?thesis by (simp add: Flowable_flow_fresh_overflow)
  next
    case (Return u)
    with fresh a show ?thesis
      by (simp add: Flowable_flow_fresh_fits Flowable_flow_resumed split: prod.splits result.splits)
  qed
qed

theorem space_above_applied_iff_not_resumed_witness:
  "Flowable_flow (\<lambda>x. x \<noteq> 0) (render_block (\<lambda>x. x \<noteq> 0)) (blk 1 2 3 True) (box Container 100 None)
     = ((blk 1 2 3 False, (box Container 100 None)\<lparr>flowable_offset := 5\<rparr>), Return (- 5)) \<and>
   fst (Flowable_flow (\<lambda>x. x \<noteq> 0) (render_block (\<lambda>x. x \<noteq> 0)) (blk 1 2 3 False) (box Container 100 None))
     = (blk 1 2 3 False, (box Container 100 None)\<lparr>flowable_offset := 6\<rparr>)"
  using space_above_applied_iff_not_resumed [of "blk 1 2 3 True" "\<lambda>x. x \<noteq> 0"
      "render_block (\<lambda>x. x \<noteq> 0)" "box Container 100 None"]
    space_above_applied_iff_not_resumed [of "blk 1 2 3 False" "\<lambda>x. x \<noteq> 0"
      "render_block (\<lambda>x. x \<noteq> 0)" "box Container 100 None"]
  by (simp add: Flowable_flow_def render_block_def advance_def Container_advance_def cursor_def Let_def)

text \<open>
  Claim C10. When the \<open>resume\<close> flag is false and the advance by \<open>space_above\<close> itself raises,
  \<open>flow\<close> raises that signal with the flag already set to true and with nothing rendered
  (the container has only been advanced by \<open>space_above\<close>, whatever \<open>render\<close> is); flowing the
  same flowable into the next container then passes that container to \<open>render\<close> as it is:
  \<open>space_above\<close> is skipped there.
\<close>

theorem resume_set_before_space_above:
  assumes "\<not> resume self" and "snd (advance truthy (space_above self) container) = Raise e"
  shows "Flowable_flow truthy render self container
           = ((self\<lparr>resume := True\<rparr>, fst (advance truthy (space_above self) container)), Raise e) \<and>
         flowable_offset (fst (advance truthy (space_above self) container))
           = flowable_offset container + space_above self \<and>
         (\<forall>next. Flowable_flow truthy render (self\<lparr>resume := True\<rparr>) next =
            (case render (self\<lparr>resume := True\<rparr>) next of
               ((s, c), Raise e) \<Rightarrow> ((s, c), Raise e)
             | ((s, c), Return u) \<Rightarrow>
                 ((s\<lparr>resume := False\<rparr>, fst (advance truthy (space_below s) c)),
                  Return (cursor (fst (advance truthy (space_below s) c)) - cursor next))))"
proof -
  from assms(2) have "advance truthy (space_above self) container
      = (fst (advance truthy (space_above self) container), Raise e)"
    by (metis prod.collapse)
  from Flowable_flow_fresh_overflow [OF assms(1) this]
  show ?thesis by (simp add: advance_offset Flowable_flow_resumed)
qed

theorem resume_set_before_space_above_witness:
  "Flowable_flow (\<lambda>x. x \<noteq> 0) (render_block (\<lambda>x. x \<noteq> 0)) (blk 8 2 3 False)
       ((box Container 10 None)\<lparr>flowable_offset := 5\<rparr>)
     = ((blk 8 2 3 True, (box Container 10 None)\<lparr>flowable_offset := 13\<rparr>), Raise EndOfContainer) \<and>
   Flowable_flow (\<lambda>x. x \<noteq> 0) (render_block (\<lambda>x. x \<noteq> 0)) (blk 8 2 3 True) (box Container 10 None)
     = ((blk 8 2 3 False, (box Container 10 None)\<lparr>flowable_offset := 5\<rparr>), Return (- 5))"
proof -
  have r: "snd (advance (\<lambda>x. x \<noteq> 0) (space_above (blk 8 2 3 False))
      ((box Container 10 None)\<lparr>flowable_offset := 5\<rparr>)) = Raise EndOfContainer"
    by (simp add: advance_def Container_advance_def Let_def)
  from resume_set_before_space_above [OF _ r, of "render_block (\<lambda>x. x \<noteq> 0)"]
  show ?thesis
    by (simp add: render_block_def advance_def Container_advance_def cursor_def Let_def)
qed

text \<open>
  What \<open>flow\<close> returns is the difference of the cursor, which falls as the offset grows: with
  the canvas height unchanged it is minus the space consumed.
\<close>

lemma Flowable_flow_value:
  assumes "Flowable_flow truthy render self container = ((s, c), Return v)"
  shows "v = cursor c - cursor container"
  using assms
  by (auto simp: Flowable_flow_def Let_def split: if_splits prod.splits result.splits)

lemma Flowable_flow_value_negated:
  fixes container :: "'l::{ab_group_add,ord} container"
  assumes "Flowable_flow truthy render self container = ((s, c), Return v)"
    and "canvas_height c = canvas_height container"
  shows "v = - (flowable_offset c - flowable_offset container)"
  using Flowable_flow_value [OF assms(1)] assms(2) by (simp add: cursor_def algebra_simps)

text \<open>
  Claim C5 at a concrete input: a flowable with \<open>space_above = 1\<close>, content of height 2 and
  \<open>space_below = 3\<close>, flowed into an empty bounded container of height 100 without overflow,
  consumes 6 and \<open>flow\<close> returns \<open>- 6\<close>.
\<close>

theorem Flowable_flow_returns_negative_space:
  "Flowable_flow (\<lambda>x. x \<noteq> 0) (render_block (\<lambda>x. x \<noteq> 0)) (blk 1 2 3 False) (box Container 100 None)
     = ((blk 1 2 3 False, (box Container 100 None)\<lparr>flowable_offset := 6\<rparr>), Return (- 6))"
  by (simp add: Flowable_flow_def render_block_def advance_def Container_advance_def cursor_def Let_def)

section \<open>Properties of \<open>Chain.render\<close>\<close>

text \<open>The definitions that a concrete run unfolds.\<close>

lemmas eval_simps = Chain_render.simps flow_loop.simps fill_container_def ContainerBase_flow_def
  Flowable_flow_def render_block_def advance_def Container_advance_def cursor_def Let_def

lemma flow_loop_result:
  "flowable_index self \<le> length (flowables self) \<Longrightarrow>
   flowable_index (fst (flow_loop truthy render k self)) \<le> length (flowables self) \<and>
   (snd (flow_loop truthy render k self) = Return () \<longleftrightarrow>
      flowable_index (fst (flow_loop truthy render k self)) = length (flowables self))"
proof (induction truthy render k self rule: flow_loop.induct)
  case (1 truthy render k self)
  show ?case
  proof (cases "flowable_index self < length (flowables self)")
    case False
    with "1.prems" show ?thesis by (simp add: flow_loop.simps)
  next
    case True
    obtain f c r where fl: "ContainerBase_flow truthy render (containers self ! k)
                   (flowables self ! flowable_index self) = ((f, c), r)"
      by (metis surj_pair)
    show ?thesis
    proof (cases r)
      case (Raise e)
      with True fl show ?thesis by (simp add: flow_loop.simps [of truthy render k self])
    next
      case (Return u)
      with True fl "1.IH" [OF True fl [symmetric] refl Return] show ?thesis
        by (simp add: flow_loop.simps [of truthy render k self])
    qed
  qed
qed

lemma fill_container_frame:
  "container_index (fst (fill_container truthy render self)) = container_index self + 1"
  "length (containers (fst (fill_container truthy render self))) = length (containers self)"
  "length (flowables (fst (fill_container truthy render self))) = length (flowables self)"
  using flow_loop_frame [of truthy render "container_index self"
      "self\<lparr>container_index := container_index self + 1\<rparr>"]
  by (simp_all add: fill_container_def Let_def)

lemma fill_container_result:
  assumes "flowable_index self \<le> length (flowables self)"
  shows "flowable_index (fst (fill_container truthy render self)) \<le> length (flowables self)"
    and "snd (fill_container truthy render self) = Return () \<longleftrightarrow>
      flowable_index (fst (fill_container truthy render self)) = length (flowables self)"
  using flow_loop_result [of "self\<lparr>container_index := container_index self + 1\<rparr>"
      truthy render "container_index self"] assms
  by (simp_all add: fill_container_def Let_def)

lemma next_container_frame:
  "container_index (next_container truthy render self) = container_index self + 1"
  "length (containers (next_container truthy render self)) = length (containers self)"
  "length (flowables (next_container truthy render self)) = length (flowables self)"
  "flowable_index self \<le> length (flowables self) \<Longrightarrow>
     flowable_index (next_container truthy render self) \<le> length (flowables self)"
  unfolding next_container_def
  by (simp_all add: fill_container_frame fill_container_result(1))

lemma Chain_render_done:
  "\<not> container_index self < length (containers self) \<Longrightarrow>
   Chain_render truthy render me self = (self, Return ())"
  by (simp add: Chain_render.simps)

lemma Chain_render_last:
  assumes "container_index self + 1 = length (containers self)"
  shows "Chain_render truthy render me self =
     (case fill_container truthy render self of
        (s, Raise e) \<Rightarrow> (s, Raise (EndOfPage me))
      | (s, Return u) \<Rightarrow> (s, Return ()))"
proof -
  obtain s r where f: "fill_container truthy render self = (s, r)" by (metis surj_pair)
  from fill_container_frame(1,2) [of truthy render self] f assms
  have idx: "container_index s = length (containers s)" by simp
  then have fin: "Chain_render truthy render me s = (s, Return ())"
    by (simp add: Chain_render_done)
  from assms have "container_index self < length (containers self)" by simp
  with f idx fin show ?thesis
    by (cases r) (simp_all add: Chain_render.simps [of truthy render me self])
qed

lemma Chain_render_next:
  assumes "container_index self + 1 < length (containers self)"
  shows "Chain_render truthy render me self =
     Chain_render truthy render me (next_container truthy render self)"
proof -
  obtain s r where f: "fill_container truthy render self = (s, r)" by (metis surj_pair)
  from fill_container_frame(1,2) [of truthy render self] f assms
  have idx: "container_index s < length (containers s)" by simp
  from assms have "container_index self < length (containers self)" by simp
  with f idx show ?thesis
    by (cases r) (simp_all add: Chain_render.simps [of truthy render me self] next_container_def)
qed

lemma Chain_render_closed_form:
  "container_index self + Suc n = length (containers self) \<Longrightarrow>
   Chain_render truthy render me self =
     (case fill_container truthy render ((next_container truthy render ^^ n) self) of
        (s, Raise e) \<Rightarrow> (s, Raise (EndOfPage me))
      | (s, Return u) \<Rightarrow> (s, Return ()))"
proof (induction n arbitrary: self)
  case 0
  then show ?case by (simp add: Chain_render_last)
next
  case (Suc n)
  let ?s = "next_container truthy render self"
  from Suc.prems next_container_frame(1,2) [of truthy render self]
  have "container_index ?s + Suc n = length (containers ?s)"
    by simp
  from Suc.IH [OF this] Suc.prems show ?case
    by (simp add: Chain_render_next funpow_swap1)
qed

lemma next_container_funpow_frame:
  "flowable_index self \<le> length (flowables self) \<Longrightarrow>
   container_index ((next_container truthy render ^^ n) self) = container_index self + n \<and>
   length (containers ((next_container truthy render ^^ n) self)) = length (containers self) \<and>
   length (flowables ((next_container truthy render ^^ n) self)) = length (flowables self) \<and>
   flowable_index ((next_container truthy render ^^ n) self) \<le> length (flowables self)"
proof (induction n)
  case 0
  then show ?case by simp
next
  case (Suc n)
  let ?s = "(next_container truthy render ^^ n) self"
  from Suc have "flowable_index ?s \<le> length (flowables ?s)" by simp
  from next_container_frame(4) [OF this, where truthy = truthy and render = render]
    next_container_frame(1,2,3) [of truthy render ?s] Suc
  show ?case by simp
qed

lemma Chain_render_outcome:
  assumes "container_index self < length (containers self)"
    and "flowable_index self \<le> length (flowables self)"
  shows "container_index
           ((next_container truthy render ^^ (length (containers self) - 1 - container_index self)) self)
           = length (containers self) - 1 \<and>
         (snd (Chain_render truthy render me self) = Raise (EndOfPage me) \<longleftrightarrow>
            (\<exists>e. snd (fill_container truthy render
               ((next_container truthy render ^^ (length (containers self) - 1 - container_index self)) self))
                 = Raise e)) \<and>
         (snd (Chain_render truthy render me self) = Raise (EndOfPage me) \<longleftrightarrow>
            flowable_index (fst (Chain_render truthy render me self)) < length (flowables self)) \<and>
         (snd (Chain_render truthy render me self) = Return () \<longleftrightarrow>
            flowable_index (fst (Chain_render truthy render me self)) = length (flowables self)) \<and>
         container_index (fst (Chain_render truthy render me self)) = length (containers self)"
proof -
  let ?n = "length (containers self) - 1 - container_index self"
  let ?last = "(next_container truthy render ^^ ?n) self"
  from assms(1) have n: "container_index self + Suc ?n = length (containers self)" by simp
  note cf = Chain_render_closed_form [OF n, where truthy = truthy and render = render and me = me]
  note fr = next_container_funpow_frame [OF assms(2), where truthy = truthy and render = render and n = ?n]
  obtain s r where f: "fill_container truthy render ?last = (s, r)" by (metis surj_pair)
  from fr have le: "flowable_index ?last \<le> length (flowables ?last)" by simp
  note res = fill_container_result [OF le, where truthy = truthy and render = render]
  note ffr = fill_container_frame [of truthy render ?last]
  have 1: "container_index ?last = length (containers self) - 1" using fr assms(1) by simp
  show ?thesis
  proof (cases r)
    case (Raise e)
    with cf f have cr: "Chain_render truthy render me self = (s, Raise (EndOfPage me))" by simp
    from res f Raise have "flowable_index s < length (flowables self)" using fr by fastforce
    with cr f Raise ffr fr 1 assms(1) show ?thesis by simp
  next
    case (Return u)
    with cf f have cr: "Chain_render truthy render me self = (s, Return ())" by simp
    from res(2) f Return have "flowable_index s = length (flowables self)" using fr by simp
    with cr f Return ffr fr 1 assms(1) show ?thesis by simp
  qed
qed

text \<open>
  Claim C1. Let \<open>Chain.render\<close> be called with a current container (and the flowable index
  within the list). The turns of the outer loop on the containers before the last one
  swallow whatever is raised, so the chain reaches its last container in the state
  \<open>next_container ^^ (number of containers - 1 - container index)\<close>. \<open>EndOfPage\<close>, carrying
  the reference to this chain, is raised if and only if flowing into that last container
  raises, and if and only if flowables are left unconsumed at the end; the call returns
  normally if and only if every flowable has been consumed; either way every container has
  been used. Called with no container left, \<open>Chain.render\<close> flows nothing and returns
  normally.
\<close>

theorem EndOfPage_iff_last_container_overflows:
  "(container_index self < length (containers self) \<and>
    flowable_index self \<le> length (flowables self) \<longrightarrow>
      container_index
        ((next_container truthy render ^^ (length (containers self) - 1 - container_index self)) self)
        = length (containers self) - 1 \<and>
      (snd (Chain_render truthy render me self) = Raise (EndOfPage me) \<longleftrightarrow>
         (\<exists>e. snd (fill_container truthy render
            ((next_container truthy render ^^ (length (containers self) - 1 - container_index self)) self))
              = Raise e)) \<and>
      (snd (Chain_render truthy render me self) = Raise (EndOfPage me) \<longleftrightarrow>
         flowable_index (fst (Chain_render truthy render me self)) < length (flowables self)) \<and>
      (snd (Chain_render truthy render me self) = Return () \<longleftrightarrow>
         flowable_index (fst (Chain_render truthy render me self)) = length (flowables self)) \<and>
      container_index (fst (Chain_render truthy render me self)) = length (containers self)) \<and>
   (\<not> container_index self < length (containers self) \<longrightarrow>
      Chain_render truthy render me self = (self, Return ()))"
proof (intro conjI impI)
  assume "container_index self < length (containers self) \<and>
    flowable_index self \<le> length (flowables self)"
  then have a: "container_index self < length (containers self)"
    and b: "flowable_index self \<le> length (flowables self)"
    by simp_all
  note o = Chain_render_outcome [OF a b, where truthy = truthy and render = render and me = me]
  from o show "container_index
        ((next_container truthy render ^^ (length (containers self) - 1 - container_index self)) self)
        = length (containers self) - 1"
    by (rule conjunct1)
  from o show "snd (Chain_render truthy render me self) = Raise (EndOfPage me) \<longleftrightarrow>
         (\<exists>e. snd (fill_container truthy render
            ((next_container truthy render ^^ (length (containers self) - 1 - container_index self)) self))
              = Raise e)"
    by (rule conjunct2 [THEN conjunct1])
  from o show "snd (Chain_render truthy render me self) = Raise (EndOfPage me) \<longleftrightarrow>
         flowable_index (fst (Chain_render truthy render me self)) < length (flowables self)"
    by (rule conjunct2 [THEN conjunct2, THEN conjunct1])
  from o show "snd (Chain_render truthy render me self) = Return () \<longleftrightarrow>
         flowable_index (fst (Chain_render truthy render me self)) = length (flowables self)"
    by (rule conjunct2 [THEN conjunct2, THEN conjunct2, THEN conjunct1])
  from o show "container_index (fst (Chain_render truthy render me self)) = length (containers self)"
    by (rule conjunct2 [THEN conjunct2, THEN conjunct2, THEN conjunct2])
next
  assume "\<not> container_index self < length (containers self)"
  then show "Chain_render truthy render me self = (self, Return ())"
    by (rule Chain_render_done)
qed

theorem EndOfPage_iff_last_container_overflows_witness:
  "Chain_render (\<lambda>x. x \<noteq> 0) (render_block (\<lambda>x. x \<noteq> 0)) 7
       (two_boxes [blk 0 6 0 False, blk 0 6 0 False, blk 0 6 0 False])
     = (\<lparr>flowables = [blk 0 6 0 False, blk 0 6 0 False, blk 0 6 0 True],
         containers = [(box Container 10 None)\<lparr>flowable_offset := 12\<rparr>,
                       (box Container 10 None)\<lparr>flowable_offset := 12\<rparr>],
         container_index = 2, flowable_index = 2\<rparr>, Raise (EndOfPage 7)) \<and>
   (\<exists>e. snd (fill_container (\<lambda>x. x \<noteq> 0) (render_block (\<lambda>x. x \<noteq> 0))
           ((next_container (\<lambda>x. x \<noteq> 0) (render_block (\<lambda>x. x \<noteq> 0)) ^^ 1)
              (two_boxes [blk 0 6 0 False, blk 0 6 0 False, blk 0 6 0 False]))) = Raise e) \<and>
   Chain_render (\<lambda>x. x \<noteq> 0) (render_block (\<lambda>x. x \<noteq> 0)) 7
       (two_boxes [blk 0 6 0 False, blk 0 6 0 False])
     = (\<lparr>flowables = [blk 0 6 0 False, blk 0 6 0 False],
         containers = [(box Container 10 None)\<lparr>flowable_offset := 12\<rparr>,
                       (box Container 10 None)\<lparr>flowable_offset := 6\<rparr>],
         container_index = 2, flowable_index = 2\<rparr>, Return ())"
proof -
  let ?t = "\<lambda>x::real. x \<noteq> 0"
  let ?three = "two_boxes [blk 0 6 0 False, blk 0 6 0 False, blk 0 6 0 False]"
  let ?two = "two_boxes [blk 0 6 0 False, blk 0 6 0 False]"
  have three: "Chain_render ?t (render_block ?t) 7 ?three
     = (\<lparr>flowables = [blk 0 6 0 False, blk 0 6 0 False, blk 0 6 0 True],
         containers = [(box Container 10 None)\<lparr>flowable_offset := 12\<rparr>,
                       (box Container 10 None)\<lparr>flowable_offset := 12\<rparr>],
         container_index = 2, flowable_index = 2\<rparr>, Raise (EndOfPage 7))"
    by (simp add: eval_simps)
  have two: "Chain_render ?t (render_block ?t) 7 ?two
     = (\<lparr>flowables = [blk 0 6 0 False, blk 0 6 0 False],
         containers = [(box Container 10 None)\<lparr>flowable_offset := 12\<rparr>,
                       (box Container 10 None)\<lparr>flowable_offset := 6\<rparr>],
         container_index = 2, flowable_index = 2\<rparr>, Return ())"
    by (simp add: eval_simps)
  have "container_index ?three < length (containers ?three) \<and>
      flowable_index ?three \<le> length (flowables ?three)"
    by simp
  from EndOfPage_iff_last_container_overflows [THEN conjunct1, rule_format, OF this,
      where truthy = ?t and render = "render_block ?t" and me = 7] three
  have "\<exists>e. snd (fill_container ?t (render_block ?t)
           ((next_container ?t (render_block ?t) ^^ 1) ?three)) = Raise e"
    by simp
  with three two show ?thesis by simp
qed

section \<open>Properties of \<open>Document.render\<close>\<close>












section \<open>Properties of \<open>ContainerBase.render\<close>\<close>

lemma render_children_all:
  "Raise EndOfContainer \<notin> set (snd (render_every_child truthy render children heap)) \<Longrightarrow>
   render_children truthy render children end_of_page heap =
     (fst (render_every_child truthy render children heap),
      collected end_of_page (snd (render_every_child truthy render children heap)), Return ())"
proof (induction children arbitrary: end_of_page heap)
  case Nil
  then show ?case by simp
next
  case (Cons child rest)
  define child' heap' r where "child' = fst (fst (ContainerBase_render truthy render child heap))"
    and "heap' = snd (fst (ContainerBase_render truthy render child heap))"
    and "r = snd (ContainerBase_render truthy render child heap)"
  have c: "ContainerBase_render truthy render child heap = ((child', heap'), r)"
    by (simp add: child'_def heap'_def r_def)
  define rest' heap'' rs where "rest' = fst (fst (render_every_child truthy render rest heap'))"
    and "heap'' = snd (fst (render_every_child truthy render rest heap'))"
    and "rs = snd (render_every_child truthy render rest heap')"
  have e: "render_every_child truthy render rest heap' = ((rest', heap''), rs)"
    by (simp add: rest'_def heap''_def rs_def)
  from Cons.prems c e have r: "r \<noteq> Raise EndOfContainer" and rs: "Raise EndOfContainer \<notin> set rs"
    by auto
  from rs e have "Raise EndOfContainer \<notin> set (snd (render_every_child truthy render rest heap'))"
    by simp
  note ih = Cons.IH [OF this]
  show ?case
  proof (cases r)
    case (Return u)
    have l: "render_children truthy render (child # rest) end_of_page heap =
        (case render_children truthy render rest end_of_page heap' of
             ((rest, heap), r) \<Rightarrow> ((child' # rest, heap), r))"
      using c Return by simp
    have rr: "render_every_child truthy render (child # rest) heap = ((child' # rest', heap''), r # rs)"
      using c e by simp
    show ?thesis
      by (simp only: l rr ih [of end_of_page] e Return prod.case fst_conv snd_conv collected.simps)
  next
    case (Raise s)
    with r obtain x where "s = EndOfPage x" by (cases s) auto
    then have rx: "r = Raise (EndOfPage x)" using Raise by simp
    have l: "render_children truthy render (child # rest) end_of_page heap =
        (case render_children truthy render rest (Some (EndOfPage x)) heap' of
             ((rest, heap), r) \<Rightarrow> ((child' # rest, heap), r))"
      using c rx by simp
    have rr: "render_every_child truthy render (child # rest) heap = ((child' # rest', heap''), r # rs)"
      using c e by simp
    show ?thesis
      by (simp only: l rr ih [of "Some (EndOfPage x)"] e rx prod.case fst_conv snd_conv collected.simps)
  qed
qed

lemma render_own_signal:
  "snd (render_own truthy render self fs end_of_page heap) =
     (if fs \<noteq> []
      then (case snd (flow_each truthy render (fetch self heap) fs) of
              Raise e \<Rightarrow> Raise e
            | Return u \<Rightarrow> reraise end_of_page)
      else (case self of
              Own c \<Rightarrow> reraise end_of_page
            | InChain h k \<Rightarrow>
                (case snd (Chain_render truthy render h (heap h)) of
                   Raise e \<Rightarrow> Raise e
                 | Return u \<Rightarrow> reraise end_of_page)))"
proof (cases "fs = []")
  case False
  define fs' c r where "fs' = fst (fst (flow_each truthy render (fetch self heap) fs))"
    and "c = snd (fst (flow_each truthy render (fetch self heap) fs))"
    and "r = snd (flow_each truthy render (fetch self heap) fs)"
  have fe: "flow_each truthy render (fetch self heap) fs = ((fs', c), r)"
    by (simp add: fs'_def c_def r_def)
  from False fe show ?thesis
    by (cases r) (simp_all add: render_own_def split: prod.splits)
next
  case True
  show ?thesis
  proof (cases self)
    case (Own c)
    with True show ?thesis by (simp add: render_own_def)
  next
    case (InChain h k)
    define ch r where "ch = fst (Chain_render truthy render h (heap h))"
      and "r = snd (Chain_render truthy render h (heap h))"
    have cr: "Chain_render truthy render h (heap h) = (ch, r)"
      by (simp add: ch_def r_def)
    show ?thesis
    proof (cases r)
      case (Return u)
      with True InChain cr show ?thesis by (simp add: render_own_def)
    next
      case (Raise s)
      with True InChain cr show ?thesis by (cases s) (simp_all add: render_own_def reraise_def)
    qed
  qed
qed

lemma ContainerBase_render_after_children:
  assumes "Raise EndOfContainer \<notin> set (snd (render_every_child truthy render children heap))"
  shows "ContainerBase_render truthy render (Geometry self children fs) heap =
     (case render_own truthy render self fs
             (collected None (snd (render_every_child truthy render children heap)))
             (snd (fst (render_every_child truthy render children heap))) of
        ((self', fs', heap'), r) \<Rightarrow>
          ((Geometry self' (fst (fst (render_every_child truthy render children heap))) fs', heap'), r))"
proof -
  define cs' heap1 where "cs' = fst (fst (render_every_child truthy render children heap))"
    and "heap1 = snd (fst (render_every_child truthy render children heap))"
  define eop where "eop = collected None (snd (render_every_child truthy render children heap))"
  have rc: "render_children truthy render children None heap = ((cs', heap1), eop, Return ())"
    by (simp add: render_children_all [OF assms] cs'_def heap1_def eop_def)
  show ?thesis
    unfolding cs'_def [symmetric] heap1_def [symmetric] eop_def [symmetric]
    by (simp add: rc)
qed

text \<open>
  Claim C6, as amended. When no child's \<open>render\<close> raises plain \<open>EndOfContainer\<close>, \<open>render\<close>
  renders every child in document order even when an earlier child raises \<open>EndOfPage\<close>:
  the loop over the children raises nothing, every child is rendered, and the \<open>EndOfPage\<close>
  of a child is collected, the last one raised replacing the earlier ones. What \<open>render\<close>
  does after the loop starts from the rendered children and the collected signal. It flows
  the container's own flowables or, when it has none and is bound to a chain, renders the
  chain: if that raises, \<open>render\<close> raises that signal (and the collected one is dropped);
  otherwise it raises the collected \<open>EndOfPage\<close>, and it returns normally only when none
  was collected.
\<close>

theorem EndOfPage_of_a_child_is_collected:
  assumes "Raise EndOfContainer \<notin> set (snd (render_every_child truthy render children heap))"
  shows "render_children truthy render children end_of_page heap =
           (fst (render_every_child truthy render children heap),
            collected end_of_page (snd (render_every_child truthy render children heap)), Return ()) \<and>
         ContainerBase_render truthy render (Geometry self children fs) heap =
           (case render_own truthy render self fs
                   (collected None (snd (render_every_child truthy render children heap)))
                   (snd (fst (render_every_child truthy render children heap))) of
              ((self', fs', heap'), r) \<Rightarrow>
                ((Geometry self' (fst (fst (render_every_child truthy render children heap))) fs',
                  heap'), r)) \<and>
         snd (ContainerBase_render truthy render (Geometry self children fs) heap) =
           (if fs \<noteq> []
            then (case snd (flow_each truthy render
                         (fetch self (snd (fst (render_every_child truthy render children heap)))) fs) of
                    Raise e \<Rightarrow> Raise e
                  | Return u \<Rightarrow>
                      (case collected None (snd (render_every_child truthy render children heap)) of
                         None \<Rightarrow> Return () | Some e' \<Rightarrow> Raise e'))
            else (case self of
                    Own c \<Rightarrow>
                      (case collected None (snd (render_every_child truthy render children heap)) of
                         None \<Rightarrow> Return () | Some e' \<Rightarrow> Raise e')
                  | InChain h k \<Rightarrow>
                      (case snd (Chain_render truthy render h
                              (snd (fst (render_every_child truthy render children heap)) h)) of
                         Raise e \<Rightarrow> Raise e
                       | Return u \<Rightarrow>
                           (case collected None (snd (render_every_child truthy render children heap)) of
                         None \<Rightarrow> Return () | Some e' \<Rightarrow> Raise e'))))"
proof (intro conjI)
  show "render_children truthy render children end_of_page heap =
           (fst (render_every_child truthy render children heap),
            collected end_of_page (snd (render_every_child truthy render children heap)), Return ())"
    by (rule render_children_all [OF assms])
  show "ContainerBase_render truthy render (Geometry self children fs) heap =
           (case render_own truthy render self fs
                   (collected None (snd (render_every_child truthy render children heap)))
                   (snd (fst (render_every_child truthy render children heap))) of
              ((self', fs', heap'), r) \<Rightarrow>
                ((Geometry self' (fst (fst (render_every_child truthy render children heap))) fs',
                  heap'), r))"
    by (rule ContainerBase_render_after_children [OF assms])
  have "snd (ContainerBase_render truthy render (Geometry self children fs) heap) =
      snd (render_own truthy render self fs
             (collected None (snd (render_every_child truthy render children heap)))
             (snd (fst (render_every_child truthy render children heap))))"
    unfolding ContainerBase_render_after_children [OF assms] by (simp split: prod.splits)
  then show "snd (ContainerBase_render truthy render (Geometry self children fs) heap) =
           (if fs \<noteq> []
            then (case snd (flow_each truthy render
                         (fetch self (snd (fst (render_every_child truthy render children heap)))) fs) of
                    Raise e \<Rightarrow> Raise e
                  | Return u \<Rightarrow>
                      (case collected None (snd (render_every_child truthy render children heap)) of
                         None \<Rightarrow> Return () | Some e' \<Rightarrow> Raise e'))
            else (case self of
                    Own c \<Rightarrow>
                      (case collected None (snd (render_every_child truthy render children heap)) of
                         None \<Rightarrow> Return () | Some e' \<Rightarrow> Raise e')
                  | InChain h k \<Rightarrow>
                      (case snd (Chain_render truthy render h
                              (snd (fst (render_every_child truthy render children heap)) h)) of
                         Raise e \<Rightarrow> Raise e
                       | Return u \<Rightarrow>
                           (case collected None (snd (render_every_child truthy render children heap)) of
                         None \<Rightarrow> Return () | Some e' \<Rightarrow> Raise e'))))"
    by (simp only: render_own_signal reraise_def)
qed

theorem EndOfPage_of_a_child_is_collected_witness:
  "ContainerBase_render (\<lambda>x. x \<noteq> 0) (render_block (\<lambda>x. x \<noteq> 0))
     (Geometry (Own (box Container 100 None))
        [Geometry (InChain 0 0) [] [],
         Geometry (Own (box Container 10 None)) [] [blk 1 2 3 False]]
        [blk 1 2 3 False])
     (\<lambda>c. \<lparr>flowables = [blk 0 6 0 False, blk 0 6 0 False], containers = [box Container 10 None],
            container_index = 0, flowable_index = 0\<rparr>)
   = ((Geometry (Own ((box Container 100 None)\<lparr>flowable_offset := 6\<rparr>))
        [Geometry (InChain 0 0) [] [],
         Geometry (Own ((box Container 10 None)\<lparr>flowable_offset := 6\<rparr>)) [] [blk 1 2 3 False]]
        [blk 1 2 3 False],
       (\<lambda>c. \<lparr>flowables = [blk 0 6 0 False, blk 0 6 0 False], containers = [box Container 10 None],
            container_index = 0, flowable_index = 0\<rparr>)
         (0 := \<lparr>flowables = [blk 0 6 0 False, blk 0 6 0 True],
                containers = [(box Container 10 None)\<lparr>flowable_offset := 12\<rparr>],
                container_index = 1, flowable_index = 1\<rparr>)),
      Raise (EndOfPage 0))"
proof -
  let ?t = "\<lambda>x::real. x \<noteq> 0"
  let ?heap = "\<lambda>c::ref. \<lparr>flowables = [blk 0 6 0 False, blk 0 6 0 False],
      containers = [box Container 10 None], container_index = 0, flowable_index = 0\<rparr>"
  let ?children = "[Geometry (InChain 0 0) [] [],
         Geometry (Own (box Container 10 None)) [] [blk 1 2 3 False]]"
  have every: "render_every_child ?t (render_block ?t) ?children ?heap =
      (([Geometry (InChain 0 0) [] [],
         Geometry (Own ((box Container 10 None)\<lparr>flowable_offset := 6\<rparr>)) [] [blk 1 2 3 False]],
        ?heap (0 := \<lparr>flowables = [blk 0 6 0 False, blk 0 6 0 True],
                containers = [(box Container 10 None)\<lparr>flowable_offset := 12\<rparr>],
                container_index = 1, flowable_index = 1\<rparr>)),
       [Raise (EndOfPage 0), Return ()])"
    by (simp add: eval_simps render_own_def fetch_def store_def reraise_def)
  then have "Raise EndOfContainer \<notin> set (snd (render_every_child ?t (render_block ?t) ?children ?heap))"
    by simp
  from EndOfPage_of_a_child_is_collected [OF this,
      where self = "Own (box Container 100 None)" and fs = "[blk 1 2 3 False]",
      THEN conjunct2, THEN conjunct1, unfolded every]
  show ?thesis by (simp add: eval_simps render_own_def fetch_def store_def reraise_def)
qed

text \<open>
  Claim C6 as stated fails for the overflow signal \<open>EndOfContainer\<close>, which the handler
  \<^verbatim>\<open>except EndOfPage\<close> does not catch: the first child's flowable does not fit
  (\<open>space_above = 20\<close> in a container of height 10), \<open>render\<close> of the parent raises at once and
  the second child is left as it was, although rendering it on its own would have flowed its
  flowable (offset 6).
\<close>

theorem EndOfContainer_of_a_child_skips_its_siblings:
  "ContainerBase_render (\<lambda>x. x \<noteq> 0) (render_block (\<lambda>x. x \<noteq> 0))
     (Geometry (Own (box Container 100 None))
        [Geometry (Own (box Container 10 None)) [] [blk 20 0 0 False],
         Geometry (Own (box Container 10 None)) [] [blk 1 2 3 False]] []) no_chains
   = ((Geometry (Own (box Container 100 None))
        [Geometry (Own ((box Container 10 None)\<lparr>flowable_offset := 20\<rparr>)) [] [blk 20 0 0 True],
         Geometry (Own (box Container 10 None)) [] [blk 1 2 3 False]] [], no_chains),
      Raise EndOfContainer) \<and>
   ContainerBase_render (\<lambda>x. x \<noteq> 0) (render_block (\<lambda>x. x \<noteq> 0))
     (Geometry (Own (box Container 10 None)) [] [blk 1 2 3 False]) no_chains
   = ((Geometry (Own ((box Container 10 None)\<lparr>flowable_offset := 6\<rparr>)) [] [blk 1 2 3 False],
       no_chains),
      Return ())"
  by (simp add: eval_simps render_own_def fetch_def store_def reraise_def)

end
